theory Spec2Isabelle
  imports Complex_Main
begin

text \<open>
  The device communication and polling code of the AC dynamic load application: the SCPI
  client and its commands (scpiHelper.ts), the pollers with their cache of last values and
  the CSV recorder (pollHelper.ts), and the IPC handlers that guard two of the commands
  (index.ts). Calls to \<open>logging\<close> and \<open>console.error\<close> leave no trace in the state and
  are left out.
\<close>

section \<open>JavaScript numbers\<close>

text \<open>
  A JavaScript \<open>number\<close> is an IEEE-754 double. A finite double is modelled by the real
  number it denotes, and the three non-finite values are kept as constructors of their
  own. The program rounds, negates, takes absolute values of and compares the numbers it
  gets from its devices and callers, and each of these operations is exact on doubles;
  the arithmetic of \<open>defineVoltageCurrent\<close> is not, and rounds each of its results to the
  nearest double (below). The two zeros \<open>+0\<close> and \<open>-0\<close> are one value \<open>Num 0\<close>: they
  compare equal, and both print as \<open>0\<close> in a template literal.
\<close>

datatype jsnum = Num real | NaN | PosInf | NegInf

text \<open>\<open>Math.round\<close>: the nearest integer, a tie going up; non-finite values are returned as they are.\<close>

fun Math_round :: "jsnum \<Rightarrow> jsnum" where
  "Math_round (Num x) = Num (of_int \<lfloor>x + 1 / 2\<rfloor>)"
| "Math_round NaN = NaN"
| "Math_round PosInf = PosInf"
| "Math_round NegInf = NegInf"


text \<open>The unary minus of JavaScript.\<close>

fun js_neg :: "jsnum \<Rightarrow> jsnum" where
  "js_neg (Num x) = Num (- x)"
| "js_neg NaN = NaN"
| "js_neg PosInf = NegInf"
| "js_neg NegInf = PosInf"

text \<open>The comparisons \<open><\<close> and \<open><=\<close>: every comparison with \<open>NaN\<close> is false.\<close>

fun js_less :: "jsnum \<Rightarrow> jsnum \<Rightarrow> bool" where
  "js_less NaN _ = False"
| "js_less _ NaN = False"
| "js_less (Num x) (Num y) = (x < y)"
| "js_less (Num _) PosInf = True"
| "js_less (Num _) NegInf = False"
| "js_less PosInf _ = False"
| "js_less NegInf NegInf = False"
| "js_less NegInf _ = True"

fun js_le :: "jsnum \<Rightarrow> jsnum \<Rightarrow> bool" where
  "js_le NaN _ = False"
| "js_le _ NaN = False"
| "js_le (Num x) (Num y) = (x \<le> y)"
| "js_le (Num _) PosInf = True"
| "js_le (Num _) NegInf = False"
| "js_le PosInf PosInf = True"
| "js_le PosInf _ = False"
| "js_le NegInf _ = True"

text \<open>\<open>Number.isInteger\<close> and \<open>Number.isFinite\<close>.\<close>

fun isInteger :: "jsnum \<Rightarrow> bool" where
  "isInteger (Num x) = (of_int \<lfloor>x\<rfloor> = x)"
| "isInteger _ = False"

fun isFinite :: "jsnum \<Rightarrow> bool" where
  "isFinite (Num x) = True"
| "isFinite _ = False"

subsection \<open>Arithmetic on doubles\<close>

text \<open>
  A finite double is \<open>m \<cdot> 2\<^bsup>e - 52\<^esup>\<close> for integers \<open>m\<close> and \<open>e\<close> with \<open>\<bar>m\<bar> < 2\<^bsup>53\<^esup>\<close> and
  \<open>-1022 \<le> e \<le> 1023\<close>. Rounding to the nearest integer, a tie going to the even one:
\<close>

definition round_even :: "real \<Rightarrow> int" where
  "round_even y =
     (let f = \<lfloor>y\<rfloor>; d = y - of_int f
      in if d < 1 / 2 then f else if 1 / 2 < d then f + 1 else if even f then f else f + 1)"

text \<open>The binary exponent of a real other than 0, not below that of the subnormal doubles.\<close>

definition exponent :: "real \<Rightarrow> int" where
  "exponent x = max \<lfloor>log 2 \<bar>x\<bar>\<rfloor> (- 1022)"

text \<open>
  The double nearest to a real, a tie going to the even significand: the rounding of
  every arithmetic operation, and of reading a decimal numeral. The doubles around \<open>x\<close> are
  \<open>2\<^bsup>exponent x - 52\<^esup>\<close> apart, and a rounded magnitude that reaches \<open>2\<^bsup>1024\<^esup>\<close> is an
  infinity.
\<close>

definition double_of :: "real \<Rightarrow> jsnum" where
  "double_of x =
     (if x = 0 then Num 0
      else
        (let u = 2 powi (exponent x - 52);
             y = of_int (round_even (x / u)) * u
         in if 2 ^ 1024 \<le> \<bar>y\<bar> then (if 0 < x then PosInf else NegInf) else Num y))"

text \<open>
  The operators \<open>+\<close>, \<open>-\<close>, \<open>*\<close> and \<open>/\<close>: the exact result rounded to the nearest double, and
  the rules of IEEE 754 for \<open>NaN\<close> and the infinities. The model having one zero, a zero
  divisor is taken to be \<open>+0\<close>.
\<close>

fun js_add :: "jsnum \<Rightarrow> jsnum \<Rightarrow> jsnum" where
  "js_add (Num x) (Num y) = double_of (x + y)"
| "js_add NaN _ = NaN"
| "js_add _ NaN = NaN"
| "js_add PosInf NegInf = NaN"
| "js_add NegInf PosInf = NaN"
| "js_add PosInf _ = PosInf"
| "js_add _ PosInf = PosInf"
| "js_add NegInf _ = NegInf"
| "js_add _ NegInf = NegInf"

definition js_sub :: "jsnum \<Rightarrow> jsnum \<Rightarrow> jsnum" where
  "js_sub x y = js_add x (js_neg y)"

fun js_mul :: "jsnum \<Rightarrow> jsnum \<Rightarrow> jsnum" where
  "js_mul (Num x) (Num y) = double_of (x * y)"
| "js_mul NaN _ = NaN"
| "js_mul _ NaN = NaN"
| "js_mul (Num x) PosInf = (if x = 0 then NaN else if 0 < x then PosInf else NegInf)"
| "js_mul (Num x) NegInf = (if x = 0 then NaN else if 0 < x then NegInf else PosInf)"
| "js_mul PosInf (Num y) = (if y = 0 then NaN else if 0 < y then PosInf else NegInf)"
| "js_mul NegInf (Num y) = (if y = 0 then NaN else if 0 < y then NegInf else PosInf)"
| "js_mul PosInf PosInf = PosInf"
| "js_mul PosInf NegInf = NegInf"
| "js_mul NegInf PosInf = NegInf"
| "js_mul NegInf NegInf = PosInf"

fun js_div :: "jsnum \<Rightarrow> jsnum \<Rightarrow> jsnum" where
  "js_div (Num x) (Num y) =
     (if y \<noteq> 0 then double_of (x / y)
      else if 0 < x then PosInf else if x < 0 then NegInf else NaN)"
| "js_div NaN _ = NaN"
| "js_div _ NaN = NaN"
| "js_div (Num x) PosInf = Num 0"
| "js_div (Num x) NegInf = Num 0"
| "js_div PosInf (Num y) = (if 0 \<le> y then PosInf else NegInf)"
| "js_div NegInf (Num y) = (if 0 \<le> y then NegInf else PosInf)"
| "js_div PosInf _ = NaN"
| "js_div NegInf _ = NaN"

section \<open>scpiHelper.ts: the SCPI client\<close>

text \<open>
  A command is the text written to the socket (the code appends the newline itself). A
  template literal with an interpolated number, such as \<open>SOUR:CURR ${n}\<close>, is kept as the
  pair of its text and its number: how JavaScript prints a number is not modelled.
\<close>

datatype scpi_cmd = Cmd string | CmdNum string jsnum

datatype error =
    ConnectError string   \<comment> \<open>the socket's \<open>error\<close> event before the connection is up\<close>
  | SocketError string    \<comment> \<open>the socket's \<open>error\<close> event while a command waits\<close>
  | WriteError string     \<comment> \<open>\<open>client.write\<close> throws\<close>
  | DeviceIdError         \<comment> \<open>\<open>new Error('Failed to retrieve device ID')\<close>\<close>
  | TypeError             \<comment> \<open>a method call on \<open>undefined\<close>\<close>
  | ReadError string      \<comment> \<open>a CDS register read rejects\<close>
  | FsError string        \<comment> \<open>\<open>writeFileSync\<close> throws\<close>

text \<open>
  What happens first after a command is written: the socket's next \<open>data\<close> event, the
  1000 ms timer, the socket's \<open>error\<close> event, or the write itself throwing.
\<close>

datatype socket_event = Data string | Timeout | Error string | WriteThrows string

record scpi_result =
  successful :: bool
  msg :: string

text \<open>
  The socket with what the device will do next: \<open>pending\<close> holds one event for each
  command still to come, and a device that has nothing more to say lets every timer fire.
\<close>

record socket =
  host :: string
  written :: "scpi_cmd list"
  pending :: "socket_event list"
  ended :: bool

text \<open>The device as the caller finds it: whether the connection comes up, and its events.\<close>

record scpi_env =
  connect_error :: "string option"
  events :: "socket_event list"

definition is_space :: "char \<Rightarrow> bool" where
  "is_space c = (c \<in> set [CHR '' '', CHR 0x09, CHR 0x0A, CHR 0x0B, CHR 0x0C, CHR 0x0D])"

text \<open>\<open>String.prototype.trim\<close> on ASCII text.\<close>

definition trim :: "string \<Rightarrow> string" where
  "trim s = rev (dropWhile is_space (rev (dropWhile is_space s)))"

definition next_event :: "socket \<Rightarrow> socket_event" where
  "next_event c = (case pending c of [] \<Rightarrow> Timeout | ev # _ \<Rightarrow> ev)"

definition sendCommand :: "socket \<Rightarrow> scpi_cmd \<Rightarrow> socket \<times> (error + scpi_result)" where
  "sendCommand client command =
     (let c = client\<lparr>pending := tl (pending client)\<rparr> in
      case next_event client of
        WriteThrows e \<Rightarrow> (c, Inl (WriteError e))
      | Timeout \<Rightarrow>
          (c\<lparr>written := written c @ [command]\<rparr>,
           Inr \<lparr>successful = True, msg = ''no data recieved''\<rparr>)
      | Data d \<Rightarrow>
          (c\<lparr>written := written c @ [command]\<rparr>,
           Inr \<lparr>successful = True, msg = trim d\<rparr>)
      | Error e \<Rightarrow> (c\<lparr>written := written c @ [command]\<rparr>, Inl (SocketError e)))"

text \<open>
  \<open>createClient\<close> connects and probes the device with \<open>*IDN?\<close>. Its own \<open>error\<close> listener
  is registered before the one of \<open>sendCommand\<close>, so a socket error during the probe
  rejects with that error; a probe that rejects for another reason rejects with the
  device-id error. In both cases the socket is ended.
\<close>

definition createClient :: "string \<Rightarrow> scpi_env \<Rightarrow> socket \<times> (error + unit)" where
  "createClient h env =
     (let client = \<lparr>host = h, written = [], pending = events env, ended = False\<rparr> in
      case connect_error env of
        Some e \<Rightarrow> (client, Inl (ConnectError e))
      | None \<Rightarrow>
          (case sendCommand client (Cmd ''*IDN?'') of
             (c, Inr idnResponse) \<Rightarrow> (c, Inr ())
           | (c, Inl (SocketError e)) \<Rightarrow> (c\<lparr>ended := True\<rparr>, Inl (SocketError e))
           | (c, Inl err) \<Rightarrow> (c\<lparr>ended := True\<rparr>, Inl DeviceIdError)))"

record host_args =
  HostIp :: string

record vpm_args = host_args +
  OutputVoltageLimitCV :: jsnum
  OutputCurrentLimitCV :: jsnum

record setpoint_args = host_args +
  CurrentSetPoint :: jsnum

record output_args = host_args +
  OutputState :: bool

text \<open>\<open>finally { if (client) client.end() }\<close>\<close>

definition finally_end :: "socket \<times> (error + 'a) \<Rightarrow> socket \<times> (error + 'a)" where
  "finally_end r = ((fst r)\<lparr>ended := True\<rparr>, snd r)"

text \<open>One awaited command after another on the same socket; the first rejection ends the sequence.\<close>

fun sendAll :: "socket \<Rightarrow> scpi_cmd list \<Rightarrow> socket \<times> (error + unit)" where
  "sendAll c [] = (c, Inr ())"
| "sendAll c (cmd # cmds) =
     (case sendCommand c cmd of
        (c', Inl err) \<Rightarrow> (c', Inl err)
      | (c', Inr _) \<Rightarrow> sendAll c' cmds)"


definition setCurrentSetPoint :: "'a setpoint_args_scheme \<Rightarrow> scpi_env \<Rightarrow> socket \<times> (error + unit)" where
  "setCurrentSetPoint args env =
     (case createClient (HostIp args) env of
        (client, Inl err) \<Rightarrow> (client, Inl err)
      | (client, Inr _) \<Rightarrow>
          finally_end (sendAll client [CmdNum ''SOUR:CURR '' (CurrentSetPoint args)]))"

definition getSinkPowerValue :: "'a host_args_scheme \<Rightarrow> scpi_env \<Rightarrow> socket \<times> (error + scpi_result)" where
  "getSinkPowerValue args env =
     (case createClient (HostIp args) env of
        (client, Inl err) \<Rightarrow> (client, Inl err)
      | (client, Inr _) \<Rightarrow>
          finally_end
            (case sendCommand client (Cmd ''MEAS:POW?'') of
               (c, Inl err) \<Rightarrow> (c, Inl err)
             | (c, Inr powerinW) \<Rightarrow> (c, Inr (powerinW\<lparr>successful := True\<rparr>))))"

definition setOutput :: "'a output_args_scheme \<Rightarrow> scpi_env \<Rightarrow> socket \<times> (error + unit)" where
  "setOutput args env =
     (case createClient (HostIp args) env of
        (client, Inl err) \<Rightarrow> (client, Inl err)
      | (client, Inr _) \<Rightarrow>
          finally_end
            (if OutputState args = True then sendAll client [Cmd ''OUTP ON'']
             else sendAll client [Cmd ''OUTP OFF'']))"

text \<open>
  \<open>x.toFixed(2)\<close> for a finite \<open>x\<close>, as a number: the number of hundredths nearest to the
  exact value of the double \<open>x\<close>, the larger one when two are equally near, found for \<open>-x\<close>
  and negated when \<open>x\<close> is negative; from \<open>1e21\<close> on, \<open>x\<close> is printed as it is.
\<close>

definition toFixed2 :: "real \<Rightarrow> real" where
  "toFixed2 x =
     (if 10 ^ 21 \<le> \<bar>x\<bar> then x
      else if x < 0 then - (of_int \<lfloor>(- x) * 100 + 1 / 2\<rfloor> / 100)
      else of_int \<lfloor>x * 100 + 1 / 2\<rfloor> / 100)"

text \<open>
  \<open>parseFloat\<close> reads the digits back as the double nearest to that number of hundredths;
  \<open>NaN\<close> and the infinities are printed and read back as themselves.
\<close>

fun parseFloat_toFixed2 :: "jsnum \<Rightarrow> jsnum" where
  "parseFloat_toFixed2 (Num x) = double_of (toFixed2 x)"
| "parseFloat_toFixed2 n = n"

record dvc_args =
  powerInkW :: jsnum
  voltage :: jsnum

text \<open>
  The result is the \<open>current\<close> property of the object the function returns. The numerals
  \<open>0.0035\<close>, \<open>0.9858\<close> and \<open>0.5878\<close> stand for the doubles nearest to them; \<open>2\<close> and \<open>1000\<close>
  are doubles. The value of \<open>x ** 2\<close> is the one arithmetic result the language leaves to
  the engine (an implementation-approximated value), so the engine's square is the
  parameter \<open>pow\<close> of the function.
\<close>

definition defineVoltageCurrent :: "(jsnum \<Rightarrow> jsnum) \<Rightarrow> dvc_args \<Rightarrow> jsnum" where
  "defineVoltageCurrent pow args =
     (let PowerWithLoss =
            js_add (js_add (js_mul (double_of 0.0035) (pow (powerInkW args)))
                           (js_mul (double_of 0.9858) (powerInkW args)))
                   (double_of 0.5878);
          AdjustedPowerinkW = js_sub (js_mul (Num 2) (powerInkW args)) PowerWithLoss
      in parseFloat_toFixed2 (js_div (js_mul AdjustedPowerinkW (Num 1000)) (voltage args)))"

section \<open>pollHelper.ts: module state\<close>

text \<open>
  A line of a CSV file: fixed text, or a measurement row, whose template literal is kept
  as its parts (time stamp, power, voltage, current, sink power, sink success).
\<close>

datatype csv_line = Text string | Row string jsnum jsnum jsnum string string

text \<open>
  The module's variables (\<open>functionGlobals\<close> flattened into its fields), followed by the
  world they act on: how many CDS clients have been constructed, which of them have not
  been disconnected, which have their global-status stream running, the pending
  \<open>setTimeout\<close> reschedules, and the files.
\<close>

record poll_state =
  intervalActive :: bool
  powerValue :: jsnum
  voltageValue :: jsnum
  currentValue :: jsnum
  reset :: bool
  sinkPowerInterval :: "nat option"
  lastSinkPReal :: "scpi_result option"
  adapter :: "nat option"
  csvLoggingEnabled :: bool
  csvFilePath :: string
  opened :: nat
  live :: "nat list"
  streaming :: "nat list"
  timers :: "(string \<times> nat) list"
  files :: "string \<rightharpoonup> csv_line list"

definition init_state :: poll_state where
  "init_state =
     \<lparr>intervalActive = False, powerValue = Num 0, voltageValue = Num 0, currentValue = Num 0,
      reset = True, sinkPowerInterval = None, lastSinkPReal = None, adapter = None,
      csvLoggingEnabled = False, csvFilePath = [], opened = 0, live = [], streaming = [],
      timers = [], files = Map.empty\<rparr>"

definition getLastPowerCDS :: "poll_state \<Rightarrow> jsnum" where
  "getLastPowerCDS st = powerValue st"

definition getLastVoltageCDS :: "poll_state \<Rightarrow> jsnum" where
  "getLastVoltageCDS st = voltageValue st"

definition getLastCurrentCDS :: "poll_state \<Rightarrow> jsnum" where
  "getLastCurrentCDS st = currentValue st"

definition getLastSinkPowerValue :: "poll_state \<Rightarrow> scpi_result option" where
  "getLastSinkPowerValue st = lastSinkPReal st"

subsection \<open>CSV logging\<close>

text \<open>
  \<open>path.join\<close> of a directory and a file name, with \<open>/\<close> for the platform's separator.
  The directory \<open>storagePath\<close> of globalpaths.ts depends on the user's home directory and
  is a parameter; \<open>isoString\<close> is what \<open>new Date().toISOString()\<close> returns at the call.
\<close>

definition join :: "string \<Rightarrow> string \<Rightarrow> string" where
  "join dir name = dir @ ''/'' @ name"

text \<open>\<open>isoString.replace(/[:.]/g, '-').slice(0, 19)\<close>\<close>

definition timestamp :: "string \<Rightarrow> string" where
  "timestamp isoString = take 19 (map (\<lambda>c. if c = CHR '':'' \<or> c = CHR ''.'' then CHR ''-'' else c) isoString)"

definition header :: string where
  "header = ''Timestamp,CDS_Power_W,CDS_Voltage_V,CDS_Current_A,Sink_Power_W,Sink_Success'' @ [CHR 0x0A]"

text \<open>
  \<open>writeFileSync\<close> creates the file or replaces its content, or it throws (the storage
  directory is missing, the path is not writable, the disk is full) and leaves the files
  as they are: \<open>write_error\<close> is the error it throws at this call, if it throws. The path
  variable is assigned before the write, and nothing catches the error.
\<close>

definition initializeCsvLogging ::
  "string option \<Rightarrow> string \<Rightarrow> string \<Rightarrow> poll_state \<Rightarrow> (error + unit) \<times> poll_state" where
  "initializeCsvLogging write_error storagePath isoString st =
     (let path = join storagePath (''messwerte_'' @ timestamp isoString @ ''.csv'');
          st1 = st\<lparr>csvFilePath := path\<rparr>
      in case write_error of
           Some err \<Rightarrow> (Inl (FsError err), st1)
         | None \<Rightarrow> (Inr (), st1\<lparr>files := (files st1)(path \<mapsto> [Text header])\<rparr>))"

record csv_status =
  success :: bool
  filePath :: "string option"
  message :: "string option"

text \<open>
  The flag is set before the file is written, and an error thrown by the write leaves
  \<open>startCsvLogging\<close> with the flag set.
\<close>

definition startCsvLogging ::
  "string option \<Rightarrow> string \<Rightarrow> string \<Rightarrow> poll_state \<Rightarrow> (error + csv_status) \<times> poll_state" where
  "startCsvLogging write_error storagePath isoString st =
     (if \<not> csvLoggingEnabled st then
        (case initializeCsvLogging write_error storagePath isoString (st\<lparr>csvLoggingEnabled := True\<rparr>) of
           (Inl err, st') \<Rightarrow> (Inl err, st')
         | (Inr _, st') \<Rightarrow> (Inr \<lparr>success = True, filePath = Some (csvFilePath st'), message = None\<rparr>, st'))
      else (Inr \<lparr>success = False, filePath = None, message = Some ''CSV logging already active''\<rparr>, st))"

definition stopCsvLogging :: "poll_state \<Rightarrow> csv_status \<times> poll_state" where
  "stopCsvLogging st =
     (\<lparr>success = True, filePath = Some (csvFilePath st), message = None\<rparr>,
      st\<lparr>csvLoggingEnabled := False, csvFilePath := []\<rparr>)"

text \<open>
  What the CDS library and the file system do during one call is the environment of the
  call: whether a library call throws, what each register read resolves or rejects with,
  and the time stamp of the row.
\<close>

record cds_env =
  ctor_throws :: bool
  startGlobalStatus_throws :: bool
  stopGlobalStatus_throws :: bool
  disconnect_throws :: bool
  measuredVoltageL1 :: "error + jsnum"
  read_P_real :: "error + jsnum"
  measuredCurrentL1 :: "error + jsnum"
  now :: string
  append_throws :: bool

definition logMeasurementToCsv :: "cds_env \<Rightarrow> poll_state \<Rightarrow> poll_state" where
  "logMeasurementToCsv e st =
     (if \<not> csvLoggingEnabled st \<or> csvFilePath st = [] then st
      else if append_throws e then st
      else
        (let ok = (case lastSinkPReal st of None \<Rightarrow> False | Some r \<Rightarrow> successful r);
             sinkPower = (case lastSinkPReal st of None \<Rightarrow> [] | Some r \<Rightarrow> if successful r then msg r else []);
             sinkSuccess = (if ok then ''true'' else ''false'');
             csvLine = Row (now e) (powerValue st) (voltageValue st) (currentValue st) sinkPower sinkSuccess;
             old = (case files st (csvFilePath st) of None \<Rightarrow> [] | Some ls \<Rightarrow> ls)
         in st\<lparr>files := (files st)(csvFilePath st \<mapsto> old @ [csvLine])\<rparr>))"

subsection \<open>Sink power polling\<close>

text \<open>
  \<open>startSinkPowerPolling\<close> declares the variable \<open>SinkPowerValue\<close>, which the interval's
  callback closes over. The function returns the variable's first value when it installs
  an interval, and each run of the callback takes the variable and returns it.
\<close>

definition startSinkPowerPolling :: "string \<Rightarrow> nat \<Rightarrow> poll_state \<Rightarrow> scpi_result option \<times> poll_state" where
  "startSinkPowerPolling ip intervalMs st =
     (let SinkPowerValue = \<lparr>successful = False, msg = []\<rparr> in
      if sinkPowerInterval st \<noteq> None then (None, st)
      else (Some SinkPowerValue, st\<lparr>sinkPowerInterval := Some intervalMs\<rparr>))"

definition stopSinkPowerPolling :: "poll_state \<Rightarrow> poll_state" where
  "stopSinkPowerPolling st =
     (if sinkPowerInterval st \<noteq> None then st\<lparr>sinkPowerInterval := None\<rparr> else st)"

text \<open>
  One run of the interval's callback, from the outcome of \<open>getSinkPowerValue\<close>, which
  resolves with a result object or rejects; it never resolves with \<open>undefined\<close>, so the
  callback's test for that has one branch only.
\<close>

definition sinkTick :: "scpi_result \<Rightarrow> error + scpi_result \<Rightarrow> poll_state \<Rightarrow> scpi_result \<times> poll_state" where
  "sinkTick SinkPowerValue outcome st =
     (case outcome of
        Inr result \<Rightarrow>
          (let sv = result\<lparr>successful := True\<rparr> in (sv, st\<lparr>lastSinkPReal := Some sv\<rparr>))
      | Inl err \<Rightarrow> (SinkPowerValue, st\<lparr>lastSinkPReal := Some SinkPowerValue\<rparr>))"

text \<open>The callback against a device: the outcome is that of \<open>getSinkPowerValue\<close>.\<close>

definition sinkTickOn :: "string \<Rightarrow> scpi_env \<Rightarrow> scpi_result \<Rightarrow> poll_state \<Rightarrow> scpi_result \<times> poll_state" where
  "sinkTickOn ip env SinkPowerValue st =
     sinkTick SinkPowerValue (snd (getSinkPowerValue \<lparr>HostIp = ip\<rparr> env)) st"

text \<open>The runs of one interval's callback, in the order in which they complete.\<close>

fun sinkTicks :: "scpi_result \<Rightarrow> (error + scpi_result) list \<Rightarrow> poll_state \<Rightarrow> scpi_result \<times> poll_state" where
  "sinkTicks sv [] st = (sv, st)"
| "sinkTicks sv (outcome # rest) st =
     sinkTicks (fst (sinkTick sv outcome st)) rest (snd (sinkTick sv outcome st))"

subsection \<open>CDS polling\<close>

text \<open>
  A CDS client is named by the number of clients constructed before it. Constructing a
  client counts as opening its connection, and a \<open>disconnect\<close> that does not throw as
  closing it: \<open>stopPollingCDS\<close> does not wait for the promise \<open>disconnect\<close> returns.
\<close>

definition stopPollingCDS :: "cds_env \<Rightarrow> poll_state \<Rightarrow> poll_state" where
  "stopPollingCDS e st =
     (let st1 = st\<lparr>intervalActive := False\<rparr> in
      case adapter st1 of
        None \<Rightarrow> st1
      | Some a \<Rightarrow>
          (let st2 = (if stopGlobalStatus_throws e then st1
                      else st1\<lparr>streaming := removeAll a (streaming st1)\<rparr>);
               st3 = (if disconnect_throws e then st2
                      else st2\<lparr>live := removeAll a (live st2)\<rparr>)
           in st3\<lparr>adapter := None\<rparr>))"

text \<open>
  \<open>startPollingCDS\<close> is an async function: it runs until an \<open>await\<close>, and whatever else
  is scheduled runs before it resumes. It is modelled by its segments between the awaits;
  a segment returns the state and the await it stops at, or \<open>None\<close> when the function has
  returned. The awaits are the 100 ms pause after stopping a running session and the three
  register reads.
\<close>

datatype cds_await = AwaitCleanup | AwaitVoltage | AwaitPower | AwaitCurrent

text \<open>The \<open>finally\<close> block: the next cycle is scheduled only while polling is active.\<close>

definition finally_reschedule :: "string \<Rightarrow> nat \<Rightarrow> poll_state \<Rightarrow> poll_state" where
  "finally_reschedule ip intervalMs st =
     (if intervalActive st then st\<lparr>timers := timers st @ [(ip, intervalMs)]\<rparr> else st)"

text \<open>
  A read is issued on the module's \<open>adapter\<close> variable as it is at that moment. With the
  variable undefined the read function throws a type error at once, which the \<open>catch\<close>
  block logs, and the function returns through \<open>finally\<close>.
\<close>

definition issue_read :: "string \<Rightarrow> nat \<Rightarrow> cds_await \<Rightarrow> poll_state \<Rightarrow> poll_state \<times> cds_await option" where
  "issue_read ip intervalMs pc st =
     (case adapter st of
        None \<Rightarrow> (finally_reschedule ip intervalMs st, None)
      | Some a \<Rightarrow> (st, Some pc))"

definition startPollingCDS_connect :: "cds_env \<Rightarrow> string \<Rightarrow> nat \<Rightarrow> poll_state \<Rightarrow> poll_state \<times> cds_await option" where
  "startPollingCDS_connect e ip intervalMs st =
     (if adapter st = None then
        (if ctor_throws e then (finally_reschedule ip intervalMs st, None)
         else
           (let a = opened st;
                st1 = st\<lparr>adapter := Some a, opened := Suc a, live := live st @ [a]\<rparr>
            in if startGlobalStatus_throws e then (finally_reschedule ip intervalMs st1, None)
               else issue_read ip intervalMs AwaitVoltage
                      (st1\<lparr>streaming := streaming st1 @ [a], intervalActive := True\<rparr>)))
      else issue_read ip intervalMs AwaitVoltage st)"

definition startPollingCDS_enter :: "cds_env \<Rightarrow> string \<Rightarrow> nat \<Rightarrow> poll_state \<Rightarrow> poll_state \<times> cds_await option" where
  "startPollingCDS_enter e ip intervalMs st =
     (if intervalActive st then (stopPollingCDS e st, Some AwaitCleanup)
      else startPollingCDS_connect e ip intervalMs st)"

definition after_voltage :: "cds_env \<Rightarrow> string \<Rightarrow> nat \<Rightarrow> poll_state \<Rightarrow> poll_state \<times> cds_await option" where
  "after_voltage e ip intervalMs st =
     (case measuredVoltageL1 e of
        Inl err \<Rightarrow> (finally_reschedule ip intervalMs st, None)
      | Inr resultV \<Rightarrow>
          (let voltage = Math_round resultV
           in issue_read ip intervalMs AwaitPower (st\<lparr>voltageValue := voltage\<rparr>)))"

definition after_power :: "cds_env \<Rightarrow> string \<Rightarrow> nat \<Rightarrow> poll_state \<Rightarrow> poll_state \<times> cds_await option" where
  "after_power e ip intervalMs st =
     (case read_P_real e of
        Inl err \<Rightarrow> (finally_reschedule ip intervalMs st, None)
      | Inr resultP \<Rightarrow>
          (let power = Math_round resultP
           in issue_read ip intervalMs AwaitCurrent
                (if js_less (Num 0) power then st\<lparr>powerValue := power\<rparr> else st)))"

definition after_current :: "cds_env \<Rightarrow> string \<Rightarrow> nat \<Rightarrow> poll_state \<Rightarrow> poll_state \<times> cds_await option" where
  "after_current e ip intervalMs st =
     (case measuredCurrentL1 e of
        Inl err \<Rightarrow> (finally_reschedule ip intervalMs st, None)
      | Inr resultC \<Rightarrow>
          (let current = Math_round resultC
           in (finally_reschedule ip intervalMs
                 (logMeasurementToCsv e (st\<lparr>currentValue := current\<rparr>)), None)))"

text \<open>Resuming the function at the await it stopped at.\<close>

fun resume :: "cds_env \<Rightarrow> string \<Rightarrow> nat \<Rightarrow> cds_await \<Rightarrow> poll_state \<Rightarrow> poll_state \<times> cds_await option" where
  "resume e ip intervalMs AwaitCleanup st = startPollingCDS_connect e ip intervalMs st"
| "resume e ip intervalMs AwaitVoltage st = after_voltage e ip intervalMs st"
| "resume e ip intervalMs AwaitPower st = after_power e ip intervalMs st"
| "resume e ip intervalMs AwaitCurrent st = after_current e ip intervalMs st"

fun continue :: "cds_env \<Rightarrow> string \<Rightarrow> nat \<Rightarrow> poll_state \<times> cds_await option \<Rightarrow> poll_state \<times> cds_await option" where
  "continue e ip intervalMs (st, None) = (st, None)"
| "continue e ip intervalMs (st, Some pc) = resume e ip intervalMs pc st"

text \<open>
  One call of \<open>startPollingCDS\<close> that nothing else interleaves with: the first segment,
  then a resumption for each of the four awaits.
\<close>

definition startPollingCDS :: "cds_env \<Rightarrow> string \<Rightarrow> nat \<Rightarrow> poll_state \<Rightarrow> poll_state" where
  "startPollingCDS e ip intervalMs st =
     fst (continue e ip intervalMs (continue e ip intervalMs (continue e ip intervalMs
       (continue e ip intervalMs (startPollingCDS_enter e ip intervalMs st)))))"

text \<open>
  The states the module can be in. The steps are the calls of the exported functions, a
  reschedule timer firing, a run of the sink-power callback and the resumption of a
  suspended \<open>startPollingCDS\<close>; a resumption is allowed at any await from any state, which
  covers every order in which the event loop can run them. The parameter \<open>ok\<close> restricts
  the environments of the CDS steps.
\<close>

inductive reachable :: "(cds_env \<Rightarrow> bool) \<Rightarrow> poll_state \<Rightarrow> bool" for ok :: "cds_env \<Rightarrow> bool" where
  r_init: "reachable ok init_state"
| r_stop: "reachable ok st \<Longrightarrow> ok e \<Longrightarrow> reachable ok (stopPollingCDS e st)"
| r_enter: "reachable ok st \<Longrightarrow> ok e \<Longrightarrow> reachable ok (fst (startPollingCDS_enter e ip intervalMs st))"
| r_timer: "reachable ok st \<Longrightarrow> ok e \<Longrightarrow> timers st = (ip, intervalMs) # rest \<Longrightarrow>
            reachable ok (fst (startPollingCDS_enter e ip intervalMs (st\<lparr>timers := rest\<rparr>)))"
| r_resume: "reachable ok st \<Longrightarrow> ok e \<Longrightarrow> reachable ok (fst (resume e ip intervalMs pc st))"
| r_csv_start: "reachable ok st \<Longrightarrow> reachable ok (snd (startCsvLogging write_error storagePath isoString st))"
| r_csv_stop: "reachable ok st \<Longrightarrow> reachable ok (snd (stopCsvLogging st))"
| r_sink_start: "reachable ok st \<Longrightarrow> reachable ok (snd (startSinkPowerPolling ip intervalMs st))"
| r_sink_stop: "reachable ok st \<Longrightarrow> reachable ok (stopSinkPowerPolling st)"
| r_sink_tick: "reachable ok st \<Longrightarrow> reachable ok (snd (sinkTick sv outcome st))"

section \<open>index.ts: the IPC handlers\<close>

text \<open>
  The handlers get the renderer's object and may add properties to it before they pass it
  on: the object of \<open>setCurrentSetPoint\<close> is the record of the function's arguments
  extended by the property \<open>current\<close>, absent until it is assigned.
\<close>

record setpoint_ipc_args = setpoint_args +
  current :: "jsnum option"

definition handle_setOutput :: "poll_state \<Rightarrow> 'a output_args_scheme \<Rightarrow> scpi_env \<Rightarrow> socket \<times> (error + unit)" where
  "handle_setOutput st args env =
     setOutput (if js_less (getLastVoltageCDS st) (Num 200) then args\<lparr>OutputState := False\<rparr> else args) env"

definition handle_setCurrentSetPoint :: "poll_state \<Rightarrow> setpoint_ipc_args \<Rightarrow> scpi_env \<Rightarrow> socket \<times> (error + unit)" where
  "handle_setCurrentSetPoint st args env =
     setCurrentSetPoint
       (if js_less (getLastVoltageCDS st) (Num 200) then args\<lparr>current := Some (Num 0)\<rparr> else args) env"

section \<open>Notions used to state the properties\<close>

text \<open>
  The formula of the specification for \<open>computeCurrentForPower\<close>, before rounding:
  \<open>adjustedPower \<cdot> 1000 / voltage\<close> with
  \<open>adjustedPower = 2 \<cdot> powerKw - (0.0035 \<cdot> powerKw\<^sup>2 + 0.9858 \<cdot> powerKw + 0.5878)\<close>.
\<close>

definition computeCurrentForPower_exact :: "real \<Rightarrow> real \<Rightarrow> real" where
  "computeCurrentForPower_exact powerKw v =
     (2 * powerKw - (0.0035 * powerKw\<^sup>2 + 0.9858 * powerKw + 0.5878)) * 1000 / v"

text \<open>An engine whose \<open>x ** 2\<close> is the square rounded to the nearest double.\<close>

definition pow2_rounded :: "jsnum \<Rightarrow> jsnum" where
  "pow2_rounded x = js_mul x x"

text \<open>The engine's square of \<open>p\<close> is a finite number at most \<open>2\<^bsup>-30\<^esup>\<close> away from \<open>p\<^sup>2\<close>.\<close>

fun near_square :: "jsnum \<Rightarrow> real \<Rightarrow> bool" where
  "near_square (Num s) p = (\<bar>s - p\<^sup>2\<bar> \<le> 1 / 2 ^ 30)"
| "near_square _ p = False"

text \<open>
  A CDS that works: no library call throws, and the three reads of a cycle resolve with
  the given voltage, power and current.
\<close>

definition responsive_cds :: "jsnum \<Rightarrow> jsnum \<Rightarrow> jsnum \<Rightarrow> cds_env" where
  "responsive_cds v p c =
     \<lparr>ctor_throws = False, startGlobalStatus_throws = False, stopGlobalStatus_throws = False,
      disconnect_throws = False, measuredVoltageL1 = Inr v, read_P_real = Inr p,
      measuredCurrentL1 = Inr c, now = ''2024-01-01T12:00:00.000Z'', append_throws = False\<rparr>"

text \<open>An environment whose register reads resolve with finite numbers only.\<close>

fun finite_read :: "error + jsnum \<Rightarrow> bool" where
  "finite_read (Inl err) = True"
| "finite_read (Inr x) = isFinite x"

definition finite_samples :: "cds_env \<Rightarrow> bool" where
  "finite_samples e =
     (finite_read (measuredVoltageL1 e) \<and> finite_read (read_P_real e) \<and> finite_read (measuredCurrentL1 e))"

text \<open>An environment in which \<open>disconnect\<close> does not throw.\<close>

definition disconnects :: "cds_env \<Rightarrow> bool" where
  "disconnects e = (\<not> disconnect_throws e)"

text \<open>The connections that are live are the one the \<open>adapter\<close> variable holds, if it holds one.\<close>

definition one_connection :: "poll_state \<Rightarrow> bool" where
  "one_connection st = (live st = (case adapter st of None \<Rightarrow> [] | Some a \<Rightarrow> [a]))"

text \<open>A property of numbers holds for the three values of the cache.\<close>

definition cache_all :: "(jsnum \<Rightarrow> bool) \<Rightarrow> poll_state \<Rightarrow> bool" where
  "cache_all P st = (P (powerValue st) \<and> P (voltageValue st) \<and> P (currentValue st))"

text \<open>A number that \<open>Math.round\<close> returns: an integer, \<open>NaN\<close> or an infinity.\<close>

definition is_rounded :: "jsnum \<Rightarrow> bool" where
  "is_rounded x = (Math_round x = x)"

text \<open>No restriction on the environment.\<close>

definition any_env :: "cds_env \<Rightarrow> bool" where
  "any_env e = True"

text \<open>A property holds for the rounded sample of a read that resolves.\<close>

fun rounds_to :: "(jsnum \<Rightarrow> bool) \<Rightarrow> error + jsnum \<Rightarrow> bool" where
  "rounds_to P (Inl err) = True"
| "rounds_to P (Inr x) = P (Math_round x)"

section \<open>Facts about numbers\<close>

lemma round_pos: "js_less (Num 0) (Math_round p) \<Longrightarrow> js_less (Num 0) p"
  by (cases p) (auto simp: less_floor_iff)

lemma round_nonpos: "js_le p (Num 0) \<Longrightarrow> \<not> js_less (Num 0) (Math_round p)"
  by (cases p) (auto simp: less_floor_iff)

lemma isInteger_round: "isFinite x \<Longrightarrow> isInteger (Math_round x)"
  by (cases x) auto


text \<open>The numbers \<open>Math.round\<close> returns are the integers and the non-finite values.\<close>

lemma is_rounded_iff: "is_rounded x = (isInteger x \<or> \<not> isFinite x)"
proof (cases x)
  case (Num r)
  have "(of_int \<lfloor>r + 1 / 2\<rfloor> = r) = (of_int \<lfloor>r\<rfloor> = r)"
  proof
    assume "of_int \<lfloor>r + 1 / 2\<rfloor> = r"
    then obtain k :: int where "r = of_int k" by metis
    then show "of_int \<lfloor>r\<rfloor> = r" by simp
  next
    assume "of_int \<lfloor>r\<rfloor> = r"
    then obtain k :: int where k: "r = of_int k" by metis
    have "\<lfloor>of_int k + (1 / 2 :: real)\<rfloor> = k" by linarith
    then show "of_int \<lfloor>r + 1 / 2\<rfloor> = r" using k by simp
  qed
  then show ?thesis using Num by (simp add: is_rounded_def)
qed (simp_all add: is_rounded_def)

section \<open>The SCPI commands\<close>

lemmas scpi_defs = createClient_def sendCommand_def next_event_def finally_end_def

lemma sendCommand_timeout_resolves:
  "next_event client = Timeout \<Longrightarrow>
   snd (sendCommand client command) = Inr \<lparr>successful = True, msg = ''no data recieved''\<rparr>"
  by (simp add: sendCommand_def)

lemma sendCommand_timeout_written:
  "next_event client = Timeout \<Longrightarrow>
   written (fst (sendCommand client command)) = written client @ [command]"
  by (simp add: sendCommand_def)

text \<open>
  The output switch: with a cached voltage below 200 the handler turns the request into
  one for OFF, whatever the caller asked for, and otherwise passes the request on.
\<close>

lemma handle_setOutput_forced_off:
  "js_less (voltageValue st) (Num 200) \<Longrightarrow>
   handle_setOutput st args env = setOutput (args\<lparr>OutputState := False\<rparr>) env"
  by (simp add: handle_setOutput_def getLastVoltageCDS_def)

lemma handle_setOutput_pass_through:
  "\<not> js_less (voltageValue st) (Num 200) \<Longrightarrow> handle_setOutput st args env = setOutput args env"
  by (simp add: handle_setOutput_def getLastVoltageCDS_def)

lemma handle_setOutput_low_voltage_example:
  "written (fst (handle_setOutput (init_state\<lparr>voltageValue := Num 150\<rparr>)
      \<lparr>HostIp = ''192.168.100.182'', OutputState = True\<rparr> \<lparr>connect_error = None, events = []\<rparr>))
   = [Cmd ''*IDN?'', Cmd ''OUTP OFF'']"
  by (simp add: handle_setOutput_def getLastVoltageCDS_def setOutput_def scpi_defs)

lemma handle_setOutput_high_voltage_example:
  "written (fst (handle_setOutput (init_state\<lparr>voltageValue := Num 250\<rparr>)
      \<lparr>HostIp = ''192.168.100.182'', OutputState = True\<rparr> \<lparr>connect_error = None, events = []\<rparr>))
   = [Cmd ''*IDN?'', Cmd ''OUTP ON'']"
  by (simp add: handle_setOutput_def getLastVoltageCDS_def setOutput_def scpi_defs)

lemma handle_setCurrentSetPoint_any_voltage:
  "handle_setCurrentSetPoint st args env = setCurrentSetPoint args env"
  by (simp add: handle_setCurrentSetPoint_def setCurrentSetPoint_def split: prod.splits sum.splits)

text \<open>
  C1. Claim: with a cached CDS voltage below 200, \<open>setOutput\<close> is sent as \<open>OUTP OFF\<close> and
  \<open>setCurrentSetPoint\<close> as \<open>SOUR:CURR 0\<close>, whatever the caller requested. The handler of
  \<open>setCurrentSetPoint\<close> assigns 0 to the property \<open>current\<close>, which \<open>setCurrentSetPoint\<close>
  never reads: with a cached voltage of 150 and a requested set point of 16 the command
  written after the probe is \<open>SOUR:CURR 16\<close>, not \<open>SOUR:CURR 0\<close>.
\<close>

theorem handle_setCurrentSetPoint_low_voltage_sends_request:
  "written (fst (handle_setCurrentSetPoint (init_state\<lparr>voltageValue := Num 150\<rparr>)
      \<lparr>HostIp = ''192.168.100.182'', CurrentSetPoint = Num 16, current = None\<rparr>
      \<lparr>connect_error = None, events = []\<rparr>))
   = [Cmd ''*IDN?'', CmdNum ''SOUR:CURR '' (Num 16)]
   \<and> CmdNum ''SOUR:CURR '' (Num 16) \<noteq> CmdNum ''SOUR:CURR '' (Num 0)"
  by (simp add: handle_setCurrentSetPoint_def getLastVoltageCDS_def setCurrentSetPoint_def scpi_defs)

text \<open>
  C2. Claim: a command that gets no data within 1000 ms and no socket error resolves with
  \<open>successful = true\<close> and the payload \<open>no data received\<close>, and so does \<open>getSinkPowerValue\<close>
  when \<open>MEAS:POW?\<close> times out. Both resolve, and the payload they resolve with is the
  misspelt text \<open>no data recieved\<close>.
\<close>

theorem sendCommand_timeout_payload_misspelt:
  "snd (sendCommand \<lparr>host = ''192.168.100.182'', written = [], pending = [Timeout], ended = False\<rparr>
          (Cmd ''MEAS:POW?''))
     = Inr \<lparr>successful = True, msg = ''no data recieved''\<rparr>
   \<and> snd (getSinkPowerValue \<lparr>HostIp = ''192.168.100.182''\<rparr>
            \<lparr>connect_error = None, events = [Data ''SINK,1.0'', Timeout]\<rparr>)
     = Inr \<lparr>successful = True, msg = ''no data recieved''\<rparr>
   \<and> ''no data recieved'' \<noteq> ''no data received''"
  by (simp add: getSinkPowerValue_def scpi_defs)











section \<open>The CDS poll cycle\<close>

lemmas cds_defs = startPollingCDS_def startPollingCDS_enter_def startPollingCDS_connect_def
  stopPollingCDS_def issue_read_def after_voltage_def after_power_def after_current_def
  finally_reschedule_def logMeasurementToCsv_def

lemma poll_cycle_fields:
  assumes "\<not> ctor_throws e" "\<not> startGlobalStatus_throws e"
    "measuredVoltageL1 e = Inr v" "read_P_real e = Inr p" "measuredCurrentL1 e = Inr c"
  shows "voltageValue (startPollingCDS e ip ms st) = Math_round v"
    and "currentValue (startPollingCDS e ip ms st) = Math_round c"
    and "powerValue (startPollingCDS e ip ms st)
           = (if js_less (Num 0) (Math_round p) then Math_round p else powerValue st)"
  using assms
  by (cases "intervalActive st"; cases "adapter st"; simp add: cds_defs Let_def)+

text \<open>
  C6. In a poll cycle whose three reads resolve, the voltage and the current field are
  overwritten with the rounded samples; the power field is overwritten with the rounded
  sample when that is positive and keeps its value otherwise, so it changes only when the
  sample is strictly positive and keeps its value when the sample is zero or negative.
\<close>

theorem poll_cycle_cache_update:
  assumes "\<not> ctor_throws e" "\<not> startGlobalStatus_throws e"
    "measuredVoltageL1 e = Inr v" "read_P_real e = Inr p" "measuredCurrentL1 e = Inr c"
  shows "voltageValue (startPollingCDS e ip ms st) = Math_round v
     \<and> currentValue (startPollingCDS e ip ms st) = Math_round c
     \<and> powerValue (startPollingCDS e ip ms st)
         = (if js_less (Num 0) (Math_round p) then Math_round p else powerValue st)
     \<and> (powerValue (startPollingCDS e ip ms st) \<noteq> powerValue st \<longrightarrow> js_less (Num 0) p)
     \<and> (js_le p (Num 0) \<longrightarrow> powerValue (startPollingCDS e ip ms st) = powerValue st)"
proof -
  note f = poll_cycle_fields [OF assms, of ip ms st]
  have "powerValue (startPollingCDS e ip ms st) \<noteq> powerValue st \<longrightarrow> js_less (Num 0) p"
    using f(3) round_pos [of p] by (simp split: if_splits)
  moreover have "js_le p (Num 0) \<longrightarrow> powerValue (startPollingCDS e ip ms st) = powerValue st"
    using f(3) round_nonpos [of p] by simp
  ultimately show ?thesis using f by simp
qed

theorem poll_cycle_cache_update_witness:
  "voltageValue (startPollingCDS (responsive_cds (Num 230.4) (Num (- 3)) (Num 12))
      ''192.168.100.80'' 400 (init_state\<lparr>powerValue := Num 5000\<rparr>)) = Num 230
   \<and> currentValue (startPollingCDS (responsive_cds (Num 230.4) (Num (- 3)) (Num 12))
      ''192.168.100.80'' 400 (init_state\<lparr>powerValue := Num 5000\<rparr>)) = Num 12
   \<and> powerValue (startPollingCDS (responsive_cds (Num 230.4) (Num (- 3)) (Num 12))
      ''192.168.100.80'' 400 (init_state\<lparr>powerValue := Num 5000\<rparr>)) = Num 5000"
  using poll_cycle_cache_update [of "responsive_cds (Num 230.4) (Num (- 3)) (Num 12)"
      "Num 230.4" "Num (- 3)" "Num 12" "''192.168.100.80''" 400 "init_state\<lparr>powerValue := Num 5000\<rparr>"]
  by (simp add: responsive_cds_def init_state_def)

section \<open>Rounding to doubles\<close>

text \<open>
  A real from \<open>2\<^bsup>e\<^esup>\<close> to below \<open>2\<^bsup>e + 1\<^esup>\<close> has the exponent \<open>e\<close>; with the exponent given,
  the double of a real is found by rounding one quotient.
\<close>

lemma exponent_eq:
  assumes "2 powi e \<le> \<bar>x\<bar>" "\<bar>x\<bar> < 2 powi (e + 1)"
  shows "\<lfloor>log 2 \<bar>x\<bar>\<rfloor> = e"
proof -
  have "(0::real) < 2 powi e" by simp
  then have pos: "0 < \<bar>x\<bar>" using assms(1) by linarith
  have "(2::real) powr (of_int e) = 2 powi e" by (simp add: powr_real_of_int' )
  moreover have "(2::real) powr (of_int e + 1) = 2 powi (e + 1)"
    using powr_real_of_int' [of 2 "e + 1"] by simp
  ultimately show ?thesis using assms pos by (simp add: floor_log_eq_powr_iff)
qed

lemma double_of_eval:
  assumes "2 powi e \<le> \<bar>x\<bar>" "\<bar>x\<bar> < 2 powi (e + 1)" "- 1022 \<le> e"
    and "round_even (x / 2 powi (e - 52)) = m" "y = of_int m * 2 powi (e - 52)"
    and "\<bar>y\<bar> < 2 ^ 1024"
  shows "double_of x = Num y"
proof -
  have "(0::real) < 2 powi e" by simp
  then have "0 < \<bar>x\<bar>" using assms(1) by linarith
  then have "x \<noteq> 0" by simp
  moreover have "exponent x = e" using exponent_eq [OF assms(1,2)] assms(3) by (simp add: exponent_def)
  ultimately show ?thesis using assms(4,5,6) by (simp add: double_of_def Let_def)
qed

text \<open>
  Rounding moves a real of magnitude at most \<open>2\<^bsup>k\<^esup>\<close> by at most \<open>2\<^bsup>k - 53\<^esup>\<close>, and not beyond
  \<open>2\<^bsup>k\<^esup>\<close>.
\<close>

lemma round_even_near: "\<bar>of_int (round_even z) - z\<bar> \<le> 1 / 2"
  unfolding round_even_def Let_def by (simp; linarith)

lemma round_even_le:
  assumes "z \<le> of_int n"
  shows "round_even z \<le> n"
proof -
  have f: "\<lfloor>z\<rfloor> \<le> n" using assms by (simp add: floor_le_iff; linarith)
  show ?thesis
  proof (cases "z - of_int \<lfloor>z\<rfloor> < 1 / 2")
    case True
    then show ?thesis using f by (simp add: round_even_def Let_def)
  next
    case False
    have "\<lfloor>z\<rfloor> \<noteq> n"
    proof
      assume "\<lfloor>z\<rfloor> = n"
      then have "of_int n \<le> z" using of_int_floor_le [of z] by simp
      then have "z - of_int \<lfloor>z\<rfloor> = 0" using assms \<open>\<lfloor>z\<rfloor> = n\<close> by simp
      then show False using False by simp
    qed
    then have "\<lfloor>z\<rfloor> + 1 \<le> n" using f by linarith
    then show ?thesis using f by (simp add: round_even_def Let_def)
  qed
qed

lemma round_even_ge:
  assumes "of_int n \<le> z"
  shows "n \<le> round_even z"
proof -
  have "n \<le> \<lfloor>z\<rfloor>" using assms by (simp add: le_floor_iff)
  then show ?thesis by (simp add: round_even_def Let_def)
qed

lemma exponent_le:
  assumes "x \<noteq> 0" "\<bar>x\<bar> \<le> 2 ^ k"
  shows "exponent x \<le> int k"
proof -
  have "log 2 \<bar>x\<bar> \<le> log 2 (2 ^ k)" using assms by (intro log_mono) auto
  then have "log 2 \<bar>x\<bar> \<le> of_int (int k)" by simp
  then have "\<lfloor>log 2 \<bar>x\<bar>\<rfloor> \<le> int k" by (simp add: floor_le_iff; linarith)
  then show ?thesis by (simp add: exponent_def)
qed

lemma double_of_near:
  assumes "\<bar>x\<bar> \<le> 2 ^ k" "k \<le> 1023"
  shows "\<exists>y. double_of x = Num y \<and> \<bar>y - x\<bar> \<le> 2 ^ k / 2 ^ 53 \<and> \<bar>y\<bar> \<le> 2 ^ k"
proof (cases "x = 0")
  case True
  then show ?thesis by (simp add: double_of_def)
next
  case False
  define E where "E = exponent x"
  define u :: real where "u = 2 powi (E - 52)"
  define m where "m = round_even (x / u)"
  define y where "y = of_int m * u"
  have upos: "0 < u" by (simp add: u_def)
  have Ek: "E \<le> int k" unfolding E_def using exponent_le [OF False assms(1)] .
  have u_le: "u \<le> 2 ^ k / 2 ^ 52"
  proof -
    have "u \<le> 2 powi (int k - 52)" unfolding u_def using Ek by (intro power_int_increasing) auto
    also have "\<dots> = 2 ^ k / 2 ^ 52" by (simp add: power_int_diff)
    finally show ?thesis .
  qed
  have near: "\<bar>of_int m - x / u\<bar> \<le> 1 / 2" unfolding m_def by (rule round_even_near)
  have "\<bar>y - x\<bar> = \<bar>of_int m - x / u\<bar> * u"
    using upos by (simp add: y_def abs_mult_pos[symmetric] field_simps)
  also have "\<dots> \<le> (1 / 2) * u" using near upos by (intro mult_right_mono) auto
  also have "\<dots> \<le> 2 ^ k / 2 ^ 53" using u_le by simp
  finally have err: "\<bar>y - x\<bar> \<le> 2 ^ k / 2 ^ 53" .
  define N :: int where "N = 2 ^ nat (int k - E + 52)"
  have Nu: "of_int N * u = 2 ^ k"
  proof -
    have "of_int N = (2::real) powi (int k - E + 52)" using Ek by (simp add: N_def power_int_def)
    then have "of_int N * u = 2 powi (int k - E + 52) * 2 powi (E - 52)" by (simp add: u_def)
    also have "\<dots> = 2 powi (int k)" by (simp flip: power_int_add)
    finally show ?thesis by simp
  qed
  have zN: "x / u \<le> of_int N" "- of_int N \<le> x / u"
  proof -
    have "\<bar>x\<bar> \<le> of_int N * u" using assms(1) Nu by simp
    then have "\<bar>x\<bar> / u \<le> of_int N" using upos by (simp add: field_simps)
    then have "\<bar>x / u\<bar> \<le> of_int N" using upos by simp
    then show "x / u \<le> of_int N" "- of_int N \<le> x / u" by linarith+
  qed
  have "m \<le> N" unfolding m_def using zN(1) by (rule round_even_le)
  moreover have "- N \<le> m" unfolding m_def using zN(2) round_even_ge [of "- N" "x / u"] by simp
  ultimately have "\<bar>of_int m :: real\<bar> \<le> of_int N" by linarith
  then have "\<bar>of_int m :: real\<bar> * u \<le> of_int N * u" using upos by (intro mult_right_mono) auto
  then have mag: "\<bar>y\<bar> \<le> 2 ^ k" using upos Nu by (simp add: y_def abs_mult)
  have "(2::real) ^ k \<le> 2 ^ 1023" using assms(2) by (intro power_increasing) auto
  moreover have "(2::real) ^ 1023 < 2 ^ 1024" by (rule power_strict_increasing) auto
  ultimately have "\<bar>y\<bar> < 2 ^ 1024" using mag by (meson le_less_trans order_trans)
  then have "double_of x = Num y"
    using False by (simp add: double_of_def Let_def E_def[symmetric] u_def[symmetric] m_def[symmetric] y_def[symmetric])
  then show ?thesis using err mag by blast
qed

text \<open>
  The error of an operation on two approximations: the errors of the operands, carried
  through the exact operation, and the rounding of the result.
\<close>

lemma mul_err:
  fixes a :: real
  assumes "\<bar>a - a0\<bar> \<le> ea" "\<bar>b - b0\<bar> \<le> eb" "\<bar>a\<bar> \<le> A" "\<bar>b0\<bar> \<le> B0"
  shows "\<bar>a * b - a0 * b0\<bar> \<le> A * eb + ea * B0"
proof -
  have A: "0 \<le> A" using assms(3) by linarith
  have E: "0 \<le> ea" using assms(1) by linarith
  have "a * b - a0 * b0 = a * (b - b0) + (a - a0) * b0" by (simp add: algebra_simps)
  then have "\<bar>a * b - a0 * b0\<bar> \<le> \<bar>a * (b - b0)\<bar> + \<bar>(a - a0) * b0\<bar>"
    using abs_triangle_ineq [of "a * (b - b0)" "(a - a0) * b0"] by simp
  also have "\<dots> = \<bar>a\<bar> * \<bar>b - b0\<bar> + \<bar>a - a0\<bar> * \<bar>b0\<bar>" by (simp add: abs_mult)
  also have "\<dots> \<le> A * eb + ea * B0"
    using assms A E by (intro add_mono mult_mono) auto
  finally show ?thesis .
qed

lemma js_mul_near:
  assumes "\<bar>a - a0\<bar> \<le> ea" "\<bar>b - b0\<bar> \<le> eb" "\<bar>a\<bar> \<le> A" "\<bar>b0\<bar> \<le> B0" "\<bar>b\<bar> \<le> B"
    and "A * B \<le> 2 ^ k" "k \<le> 1023" "A * eb + ea * B0 + 2 ^ k / 2 ^ 53 \<le> E"
  shows "\<exists>y. js_mul (Num a) (Num b) = Num y \<and> \<bar>y - a0 * b0\<bar> \<le> E \<and> \<bar>y\<bar> \<le> 2 ^ k"
proof -
  have A: "0 \<le> A" using assms(3) by linarith
  have "\<bar>a * b\<bar> = \<bar>a\<bar> * \<bar>b\<bar>" by (simp add: abs_mult)
  also have "\<dots> \<le> A * B" using assms(3,5) A by (intro mult_mono) auto
  finally have "\<bar>a * b\<bar> \<le> 2 ^ k" using assms(6) by linarith
  from double_of_near [OF this assms(7)] obtain y
    where y: "double_of (a * b) = Num y" "\<bar>y - a * b\<bar> \<le> 2 ^ k / 2 ^ 53" "\<bar>y\<bar> \<le> 2 ^ k"
    by blast
  have "\<bar>a * b - a0 * b0\<bar> \<le> A * eb + ea * B0" by (rule mul_err [OF assms(1-4)])
  then have "\<bar>y - a0 * b0\<bar> \<le> E" using y(2) assms(8) by linarith
  then show ?thesis using y by simp
qed

lemma js_add_near:
  assumes "\<bar>a - a0\<bar> \<le> ea" "\<bar>b - b0\<bar> \<le> eb" "\<bar>a\<bar> \<le> A" "\<bar>b\<bar> \<le> B"
    and "A + B \<le> 2 ^ k" "k \<le> 1023" "ea + eb + 2 ^ k / 2 ^ 53 \<le> E"
  shows "\<exists>y. js_add (Num a) (Num b) = Num y \<and> \<bar>y - (a0 + b0)\<bar> \<le> E \<and> \<bar>y\<bar> \<le> 2 ^ k"
proof -
  have "\<bar>a + b\<bar> \<le> 2 ^ k" using assms(3,4,5) by linarith
  from double_of_near [OF this assms(6)] obtain y
    where y: "double_of (a + b) = Num y" "\<bar>y - (a + b)\<bar> \<le> 2 ^ k / 2 ^ 53" "\<bar>y\<bar> \<le> 2 ^ k"
    by blast
  have "\<bar>y - (a0 + b0)\<bar> \<le> E" using y(2) assms(1,2,7) by linarith
  then show ?thesis using y by simp
qed

lemma js_sub_near:
  assumes "\<bar>a - a0\<bar> \<le> ea" "\<bar>b - b0\<bar> \<le> eb" "\<bar>a\<bar> \<le> A" "\<bar>b\<bar> \<le> B"
    and "A + B \<le> 2 ^ k" "k \<le> 1023" "ea + eb + 2 ^ k / 2 ^ 53 \<le> E"
  shows "\<exists>y. js_sub (Num a) (Num b) = Num y \<and> \<bar>y - (a0 - b0)\<bar> \<le> E \<and> \<bar>y\<bar> \<le> 2 ^ k"
proof -
  have "\<bar>a + - b\<bar> \<le> 2 ^ k" using assms(3,4,5) by linarith
  from double_of_near [OF this assms(6)] obtain y
    where y: "double_of (a + - b) = Num y" "\<bar>y - (a + - b)\<bar> \<le> 2 ^ k / 2 ^ 53" "\<bar>y\<bar> \<le> 2 ^ k"
    by blast
  have "\<bar>y - (a0 - b0)\<bar> \<le> E" using y(2) assms(1,2,7) by linarith
  then show ?thesis using y by (simp add: js_sub_def)
qed

lemma js_div_near:
  assumes "\<bar>a - a0\<bar> \<le> ea" "\<bar>a\<bar> \<le> 2 ^ k" "1 \<le> v" "k \<le> 1023" "ea + 2 ^ k / 2 ^ 53 \<le> E"
  shows "\<exists>y. js_div (Num a) (Num v) = Num y \<and> \<bar>y - a0 / v\<bar> \<le> E \<and> \<bar>y\<bar> \<le> 2 ^ k"
proof -
  have v: "0 < v" using assms(3) by linarith
  have shrink: "\<bar>z / v\<bar> \<le> \<bar>z\<bar>" for z :: real
  proof -
    have "\<bar>z\<bar> / v \<le> \<bar>z\<bar> / 1" using assms(3) by (intro divide_left_mono) auto
    then show ?thesis using v by simp
  qed
  have "\<bar>a / v\<bar> \<le> 2 ^ k" using shrink [of a] assms(2) by linarith
  from double_of_near [OF this assms(4)] obtain y
    where y: "double_of (a / v) = Num y" "\<bar>y - a / v\<bar> \<le> 2 ^ k / 2 ^ 53" "\<bar>y\<bar> \<le> 2 ^ k"
    by blast
  have "a / v - a0 / v = (a - a0) / v" by (simp add: diff_divide_distrib)
  then have "\<bar>a / v - a0 / v\<bar> \<le> ea" using shrink [of "a - a0"] assms(1) by linarith
  then have "\<bar>y - a0 / v\<bar> \<le> E" using y(2) assms(5) by linarith
  then show ?thesis using y v by simp
qed

lemma literal_near:
  assumes "\<bar>c\<bar> \<le> 1"
  shows "\<exists>y. double_of c = Num y \<and> \<bar>y - c\<bar> \<le> 1 / 2 ^ 53"
  using double_of_near [of c 0] assms by auto

section \<open>The current for a power\<close>

lemma toFixed2_int:
  assumes "\<bar>x\<bar> < 10 ^ 21"
  shows "\<exists>n::int. toFixed2 x = of_int n / 100 \<and> \<bar>of_int n - 100 * x\<bar> \<le> 1 / 2"
proof (cases "x < 0")
  case True
  have "toFixed2 x = of_int (- \<lfloor>(- x) * 100 + 1 / 2\<rfloor>) / 100"
    using assms True by (simp add: toFixed2_def)
  moreover have "\<bar>of_int (- \<lfloor>(- x) * 100 + 1 / 2\<rfloor>) - 100 * x\<bar> \<le> 1 / 2"
  proof -
    have "of_int \<lfloor>(- x) * 100 + 1 / 2\<rfloor> \<le> (- x) * 100 + 1 / 2" by (rule of_int_floor_le)
    moreover have "(- x) * 100 + 1 / 2 < of_int \<lfloor>(- x) * 100 + 1 / 2\<rfloor> + 1" by linarith
    ultimately show ?thesis unfolding of_int_minus by linarith
  qed
  ultimately show ?thesis by blast
next
  case False
  have "toFixed2 x = of_int \<lfloor>x * 100 + 1 / 2\<rfloor> / 100"
    using assms False by (simp add: toFixed2_def)
  moreover have "\<bar>of_int \<lfloor>x * 100 + 1 / 2\<rfloor> - 100 * x\<bar> \<le> 1 / 2"
  proof -
    have "of_int \<lfloor>x * 100 + 1 / 2\<rfloor> \<le> x * 100 + 1 / 2" by (rule of_int_floor_le)
    moreover have "x * 100 + 1 / 2 < of_int \<lfloor>x * 100 + 1 / 2\<rfloor> + 1" by linarith
    ultimately show ?thesis by linarith
  qed
  ultimately show ?thesis by blast
qed

text \<open>
  The quotient the code rounds to hundredths is within \<open>10\<^bsup>-7\<^esup>\<close> of the specification's
  formula, for a power between 0 and the vertex of the parabola and a voltage from 1 on.
\<close>

lemma quotient_near:
  assumes "0 \<le> p" "p \<le> 5071 / 35" "1 \<le> v" "near_square (pow (Num p)) p"
  shows "\<exists>Q. js_div (js_mul (js_sub (js_mul (Num 2) (Num p))
                 (js_add (js_add (js_mul (double_of 0.0035) (pow (Num p)))
                                 (js_mul (double_of 0.9858) (Num p)))
                         (double_of 0.5878))) (Num 1000)) (Num v) = Num Q
           \<and> \<bar>Q - computeCurrentForPower_exact p v\<bar> \<le> 1 / 10 ^ 7 \<and> \<bar>Q\<bar> \<le> 2 ^ 21"
proof -
  obtain s where s: "pow (Num p) = Num s" "\<bar>s - p\<^sup>2\<bar> \<le> 1 / 2 ^ 30"
    using assms(4) by (cases "pow (Num p)") auto
  obtain c1 where c1: "double_of 0.0035 = Num c1" "\<bar>c1 - 0.0035\<bar> \<le> 1 / 2 ^ 53"
    using literal_near [of "0.0035"] by auto
  obtain c2 where c2: "double_of 0.9858 = Num c2" "\<bar>c2 - 0.9858\<bar> \<le> 1 / 2 ^ 53"
    using literal_near [of "0.9858"] by auto
  obtain c3 where c3: "double_of 0.5878 = Num c3" "\<bar>c3 - 0.5878\<bar> \<le> 1 / 2 ^ 53"
    using literal_near [of "0.5878"] by auto
  have c1m: "\<bar>c1\<bar> \<le> 1 / 256" using c1(2) unfolding abs_le_iff by simp
  have c2m: "\<bar>c2\<bar> \<le> 1" using c2(2) unfolding abs_le_iff by simp
  have c3m: "\<bar>c3\<bar> \<le> 1" using c3(2) unfolding abs_le_iff by simp
  have pm: "\<bar>p\<bar> \<le> 256" using assms(1,2) by simp
  have pe: "\<bar>p - p\<bar> \<le> 0" by simp
  have "p\<^sup>2 \<le> (5071 / 35)\<^sup>2" using assms(1,2) by (intro power_mono) auto
  also have "\<dots> \<le> 21000" by (simp add: power2_eq_square)
  finally have p2: "p\<^sup>2 \<le> 21000" .
  then have p2m: "\<bar>p\<^sup>2\<bar> \<le> 21000" by simp
  have sm: "\<bar>s\<bar> \<le> 21001" using s(2) p2m unfolding abs_le_iff by simp
  have "\<exists>t1. js_mul (Num c1) (Num s) = Num t1 \<and> \<bar>t1 - 0.0035 * p\<^sup>2\<bar> \<le> 1 / 10 ^ 11 \<and> \<bar>t1\<bar> \<le> 2 ^ 7"
    by (rule js_mul_near [OF c1(2) s(2) c1m p2m sm]) simp_all
  then obtain t1 where t1: "js_mul (Num c1) (Num s) = Num t1" "\<bar>t1 - 0.0035 * p\<^sup>2\<bar> \<le> 1 / 10 ^ 11"
    "\<bar>t1\<bar> \<le> 2 ^ 7" by blast
  have "\<exists>t2. js_mul (Num c2) (Num p) = Num t2 \<and> \<bar>t2 - 0.9858 * p\<bar> \<le> 1 / 10 ^ 13 \<and> \<bar>t2\<bar> \<le> 2 ^ 8"
    by (rule js_mul_near [OF c2(2) pe c2m pm pm]) simp_all
  then obtain t2 where t2: "js_mul (Num c2) (Num p) = Num t2" "\<bar>t2 - 0.9858 * p\<bar> \<le> 1 / 10 ^ 13"
    "\<bar>t2\<bar> \<le> 2 ^ 8" by blast
  have "\<exists>t3. js_add (Num t1) (Num t2) = Num t3
          \<and> \<bar>t3 - (0.0035 * p\<^sup>2 + 0.9858 * p)\<bar> \<le> 2 / 10 ^ 11 \<and> \<bar>t3\<bar> \<le> 2 ^ 9"
    by (rule js_add_near [OF t1(2) t2(2) t1(3) t2(3)]) simp_all
  then obtain t3 where t3: "js_add (Num t1) (Num t2) = Num t3"
    "\<bar>t3 - (0.0035 * p\<^sup>2 + 0.9858 * p)\<bar> \<le> 2 / 10 ^ 11" "\<bar>t3\<bar> \<le> 2 ^ 9" by blast
  have "\<exists>L. js_add (Num t3) (Num c3) = Num L
          \<and> \<bar>L - (0.0035 * p\<^sup>2 + 0.9858 * p + 0.5878)\<bar> \<le> 3 / 10 ^ 11 \<and> \<bar>L\<bar> \<le> 2 ^ 10"
    by (rule js_add_near [OF t3(2) c3(2) t3(3) c3m]) simp_all
  then obtain L where L: "js_add (Num t3) (Num c3) = Num L"
    "\<bar>L - (0.0035 * p\<^sup>2 + 0.9858 * p + 0.5878)\<bar> \<le> 3 / 10 ^ 11" "\<bar>L\<bar> \<le> 2 ^ 10" by blast
  have two: "\<bar>(2::real) - 2\<bar> \<le> 0" "\<bar>2::real\<bar> \<le> 2" by simp_all
  have "\<exists>d. js_mul (Num 2) (Num p) = Num d \<and> \<bar>d - 2 * p\<bar> \<le> 1 / 10 ^ 13 \<and> \<bar>d\<bar> \<le> 2 ^ 9"
    by (rule js_mul_near [OF two(1) pe two(2) pm pm]) simp_all
  then obtain d where d: "js_mul (Num 2) (Num p) = Num d" "\<bar>d - 2 * p\<bar> \<le> 1 / 10 ^ 13"
    "\<bar>d\<bar> \<le> 2 ^ 9" by blast
  have "\<exists>a. js_sub (Num d) (Num L) = Num a
          \<and> \<bar>a - (2 * p - (0.0035 * p\<^sup>2 + 0.9858 * p + 0.5878))\<bar> \<le> 4 / 10 ^ 11 \<and> \<bar>a\<bar> \<le> 2 ^ 11"
    by (rule js_sub_near [OF d(2) L(2) d(3) L(3)]) simp_all
  then obtain a where a: "js_sub (Num d) (Num L) = Num a"
    "\<bar>a - (2 * p - (0.0035 * p\<^sup>2 + 0.9858 * p + 0.5878))\<bar> \<le> 4 / 10 ^ 11" "\<bar>a\<bar> \<le> 2 ^ 11" by blast
  have th: "\<bar>(1000::real) - 1000\<bar> \<le> 0" "\<bar>1000::real\<bar> \<le> 1000" by simp_all
  have "\<exists>k. js_mul (Num a) (Num 1000) = Num k
          \<and> \<bar>k - (2 * p - (0.0035 * p\<^sup>2 + 0.9858 * p + 0.5878)) * 1000\<bar> \<le> 5 / 10 ^ 8 \<and> \<bar>k\<bar> \<le> 2 ^ 21"
    by (rule js_mul_near [OF a(2) th(1) a(3) th(2) th(2)]) simp_all
  then obtain k where k: "js_mul (Num a) (Num 1000) = Num k"
    "\<bar>k - (2 * p - (0.0035 * p\<^sup>2 + 0.9858 * p + 0.5878)) * 1000\<bar> \<le> 5 / 10 ^ 8" "\<bar>k\<bar> \<le> 2 ^ 21" by blast
  have "\<exists>Q. js_div (Num k) (Num v) = Num Q
          \<and> \<bar>Q - (2 * p - (0.0035 * p\<^sup>2 + 0.9858 * p + 0.5878)) * 1000 / v\<bar> \<le> 1 / 10 ^ 7 \<and> \<bar>Q\<bar> \<le> 2 ^ 21"
    by (rule js_div_near [OF k(2) k(3) assms(3)]) simp_all
  then obtain Q where Q: "js_div (Num k) (Num v) = Num Q"
    "\<bar>Q - (2 * p - (0.0035 * p\<^sup>2 + 0.9858 * p + 0.5878)) * 1000 / v\<bar> \<le> 1 / 10 ^ 7" "\<bar>Q\<bar> \<le> 2 ^ 21" by blast
  show ?thesis
    unfolding s(1) c1(1) c2(1) c3(1) t1(1) t2(1) t3(1) L(1) d(1) a(1) k(1) Q(1) computeCurrentForPower_exact_def
    using Q(2,3) by blast
qed

text \<open>The adjusted power rises with the power up to the vertex of its parabola.\<close>

lemma exact_mono:
  assumes "p \<le> q" "q \<le> 5071 / 35" "0 < v"
  shows "computeCurrentForPower_exact p v \<le> computeCurrentForPower_exact q v"
proof -
  let ?adj = "\<lambda>x::real. 2 * x - (0.0035 * x\<^sup>2 + 0.9858 * x + 0.5878)"
  have "?adj q - ?adj p = (q - p) * (1.0142 - 0.0035 * (p + q))"
    unfolding power2_eq_square by algebra
  moreover have "0 \<le> q - p" using assms by simp
  moreover have "0 \<le> 1.0142 - 0.0035 * (p + q)" using assms by simp
  ultimately have "0 \<le> ?adj q - ?adj p" by simp
  then have "?adj p * 1000 \<le> ?adj q * 1000" by simp
  then have "?adj p * 1000 / v \<le> ?adj q * 1000 / v"
    using assms(3) by (simp add: divide_right_mono)
  then show ?thesis by (simp add: computeCurrentForPower_exact_def)
qed

lemma pow2_rounded_near_square:
  assumes "\<bar>p\<bar> \<le> 256"
  shows "near_square (pow2_rounded (Num p)) p"
proof -
  have "\<bar>p * p\<bar> = \<bar>p\<bar> * \<bar>p\<bar>" by (simp add: abs_mult)
  also have "\<dots> \<le> 256 * 256" using assms by (intro mult_mono) auto
  finally have "\<bar>p * p\<bar> \<le> 2 ^ 16" by simp
  from double_of_near [OF this] obtain y
    where y: "double_of (p * p) = Num y" "\<bar>y - p * p\<bar> \<le> 2 ^ 16 / 2 ^ 53"
    by auto
  have "(2::real) ^ 16 / 2 ^ 53 \<le> 1 / 2 ^ 30" by simp
  then have "\<bar>y - p\<^sup>2\<bar> \<le> 1 / 2 ^ 30" using y(2) unfolding power2_eq_square by linarith
  then show ?thesis using y(1) by (simp add: pow2_rounded_def)
qed

lemma defineVoltageCurrent_hundredths:
  assumes "0 \<le> p" "p \<le> 5071 / 35" "1 \<le> v" "near_square (pow (Num p)) p"
  shows "\<exists>n::int.
           defineVoltageCurrent pow \<lparr>powerInkW = Num p, voltage = Num v\<rparr> = double_of (of_int n / 100)
         \<and> \<bar>of_int n - 100 * computeCurrentForPower_exact p v\<bar> \<le> 1 / 2 + 1 / 10 ^ 5"
proof -
  from quotient_near [where pow = pow, OF assms] obtain Q
    where Q: "js_div (js_mul (js_sub (js_mul (Num 2) (Num p))
                 (js_add (js_add (js_mul (double_of 0.0035) (pow (Num p)))
                                 (js_mul (double_of 0.9858) (Num p)))
                         (double_of 0.5878))) (Num 1000)) (Num v) = Num Q"
      "\<bar>Q - computeCurrentForPower_exact p v\<bar> \<le> 1 / 10 ^ 7" "\<bar>Q\<bar> \<le> 2 ^ 21"
    by blast
  have "(2::real) ^ 21 < 10 ^ 21" by simp
  then have "\<bar>Q\<bar> < 10 ^ 21" using Q(3) by linarith
  from toFixed2_int [OF this] obtain n :: int
    where n: "toFixed2 Q = of_int n / 100" "\<bar>of_int n - 100 * Q\<bar> \<le> 1 / 2"
    by blast
  have "defineVoltageCurrent pow \<lparr>powerInkW = Num p, voltage = Num v\<rparr> = parseFloat_toFixed2 (Num Q)"
    unfolding defineVoltageCurrent_def Let_def dvc_args.select_convs Q(1) by (rule refl)
  then have "defineVoltageCurrent pow \<lparr>powerInkW = Num p, voltage = Num v\<rparr> = double_of (of_int n / 100)"
    by (simp add: n(1))
  moreover have "\<bar>of_int n - 100 * computeCurrentForPower_exact p v\<bar> \<le> 1 / 2 + 1 / 10 ^ 5"
  proof -
    have e: "(1::real) / 10 ^ 7 = 1 / 10000000" "(1::real) / 2 + 1 / 10 ^ 5 = 50001 / 100000"
      by simp_all
    show ?thesis using n(2) Q(2) unfolding e by linarith
  qed
  ultimately show ?thesis by blast
qed

lemma zero_power_result:
  assumes "near_square (pow (Num 0)) 0"
  shows "defineVoltageCurrent pow \<lparr>powerInkW = Num 0, voltage = Num 230\<rparr> = double_of (- 2.56)"
proof -
  have h: "(0::real) \<le> 0" "(0::real) \<le> 5071 / 35" "(1::real) \<le> 230" by simp_all
  from defineVoltageCurrent_hundredths [where pow = pow, OF h assms] obtain n :: int
    where n: "defineVoltageCurrent pow \<lparr>powerInkW = Num 0, voltage = Num 230\<rparr> = double_of (of_int n / 100)"
      "\<bar>of_int n - 100 * computeCurrentForPower_exact 0 230\<bar> \<le> 1 / 2 + 1 / 10 ^ 5"
    by blast
  have x: "100 * computeCurrentForPower_exact 0 230 = - (5878 / 23)"
    by (simp add: computeCurrentForPower_exact_def)
  have e: "(1::real) / 2 + 1 / 10 ^ 5 = 50001 / 100000" by simp
  have "- 257 < (of_int n :: real)" "(of_int n :: real) < - 255"
    using n(2) unfolding x e by linarith+
  then have "- 257 < n" "n < - 255" by linarith+
  then have "n = - 256" by simp
  then show ?thesis using n(1) by simp
qed

text \<open>The function at given numbers, one rounding after the other.\<close>

lemma dvc_steps:
  assumes "pow (Num p) = Num s"
    and "double_of 0.0035 = Num c1" "double_of 0.9858 = Num c2" "double_of 0.5878 = Num c3"
    and "double_of (c1 * s) = Num t1" "double_of (c2 * p) = Num t2"
    and "double_of (t1 + t2) = Num t3" "double_of (t3 + c3) = Num L"
    and "double_of (2 * p) = Num d" "double_of (d + - L) = Num a"
    and "double_of (a * 1000) = Num k" "v \<noteq> 0" "double_of (k / v) = Num Q"
    and "toFixed2 Q = r"
  shows "defineVoltageCurrent pow \<lparr>powerInkW = Num p, voltage = Num v\<rparr> = double_of r"
  using assms by (simp add: defineVoltageCurrent_def js_sub_def)

lemma literal_0035: "double_of 0.0035 = Num (8070450532247929 / 2 ^ 61)"
  by (rule double_of_eval [where e = "- 9" and m = "8070450532247929"]) (simp_all add: round_even_def)

lemma literal_9858: "double_of 0.9858 = Num (4439648512661835 / 2 ^ 52)"
  by (rule double_of_eval [where e = "- 1" and m = "8879297025323670"]) (simp_all add: round_even_def)

lemma literal_5878: "double_of 0.5878 = Num (5294431721936755 / 2 ^ 53)"
  by (rule double_of_eval [where e = "- 1" and m = "5294431721936755"]) (simp_all add: round_even_def)

lemma defineVoltageCurrent_at_0_230:
  "defineVoltageCurrent pow2_rounded \<lparr>powerInkW = Num 0, voltage = Num 230\<rparr> = double_of (- 2.56)"
proof -
  have f0: "pow2_rounded (Num 0) = Num 0"
    by (simp add: pow2_rounded_def double_of_def)
  have f1: "double_of ((8070450532247929 / 2 ^ 61) * 0) = Num 0"
    by (simp add: double_of_def)
  have f2: "double_of ((4439648512661835 / 2 ^ 52) * 0) = Num 0"
    by (simp add: double_of_def)
  have f3: "double_of (0 + 0) = Num 0"
    by (simp add: double_of_def)
  have f4: "double_of (0 + (5294431721936755 / 2 ^ 53)) = Num (5294431721936755 / 2 ^ 53)"
    by (rule double_of_eval [where e = "- 1" and m = "5294431721936755"]) (simp_all add: round_even_def)
  have f5: "double_of (2 * 0) = Num 0"
    by (simp add: double_of_def)
  have f6: "double_of (0 + - (5294431721936755 / 2 ^ 53)) = Num (- (5294431721936755 / 2 ^ 53))"
    by (rule double_of_eval [where e = "- 1" and m = "- 5294431721936755"]) (simp_all add: round_even_def)
  have f7: "double_of ((- (5294431721936755 / 2 ^ 53)) * 1000) = Num (- (2585171739226931 / 2 ^ 42))"
    by (rule double_of_eval [where e = "9" and m = "- 5170343478453862"]) (simp_all add: round_even_def)
  have f8: "double_of ((- (2585171739226931 / 2 ^ 42)) / 230) = Num (- (2877408544530845 / 2 ^ 50))"
    by (rule double_of_eval [where e = "1" and m = "- 5754817089061690"]) (simp_all add: round_even_def)
  have nz: "(230::real) \<noteq> 0"
    by simp
  have f9: "toFixed2 (- (2877408544530845 / 2 ^ 50)) = (- 2.56)"
    by (simp add: toFixed2_def)
  show ?thesis
    by (rule dvc_steps [where pow = pow2_rounded, OF f0 literal_0035 literal_9858 literal_5878 f1 f2 f3 f4 f5 f6 f7 nz f8 f9])
qed

lemma defineVoltageCurrent_at_100_230:
  "defineVoltageCurrent pow2_rounded \<lparr>powerInkW = Num 100, voltage = Num 230\<rparr> = double_of 286.23"
proof -
  have f0: "pow2_rounded (Num 100) = Num 10000"
    unfolding pow2_rounded_def js_mul.simps
    by (rule double_of_eval [where e = "13" and m = "5497558138880000"]) (simp_all add: round_even_def)
  have f1: "double_of ((8070450532247929 / 2 ^ 61) * 10000) = Num 35"
    by (rule double_of_eval [where e = "5" and m = "4925812092436480"]) (simp_all add: round_even_def)
  have f2: "double_of ((4439648512661835 / 2 ^ 52) * 100) = Num (6936950801034117 / 2 ^ 46)"
    by (rule double_of_eval [where e = "6" and m = "6936950801034117"]) (simp_all add: round_even_def)
  have f3: "double_of (35 + (6936950801034117 / 2 ^ 46)) = Num (2349964211813089 / 2 ^ 44)"
    by (rule double_of_eval [where e = "7" and m = "4699928423626178"]) (simp_all add: round_even_def)
  have f4: "double_of ((2349964211813089 / 2 ^ 44) + (5294431721936755 / 2 ^ 53)) = Num (4720609797539993 / 2 ^ 45)"
    by (rule double_of_eval [where e = "7" and m = "4720609797539993"]) (simp_all add: round_even_def)
  have f5: "double_of (2 * 100) = Num 200"
    by (rule double_of_eval [where e = "7" and m = "7036874417766400"]) (simp_all add: round_even_def)
  have f6: "double_of (200 + - (4720609797539993 / 2 ^ 45)) = Num (2316264620226407 / 2 ^ 45)"
    by (rule double_of_eval [where e = "6" and m = "4632529240452814"]) (simp_all add: round_even_def)
  have f7: "double_of ((2316264620226407 / 2 ^ 45) * 1000) = Num (4523954336379701 / 2 ^ 36)"
    by (rule double_of_eval [where e = "16" and m = "4523954336379701"]) (simp_all add: round_even_def)
  have f8: "double_of ((4523954336379701 / 2 ^ 36) / 230) = Num (2517678935028703 / 2 ^ 43)"
    by (rule double_of_eval [where e = "8" and m = "5035357870057406"]) (simp_all add: round_even_def)
  have nz: "(230::real) \<noteq> 0"
    by simp
  have f9: "toFixed2 (2517678935028703 / 2 ^ 43) = 286.23"
    by (simp add: toFixed2_def)
  show ?thesis
    by (rule dvc_steps [where pow = pow2_rounded, OF f0 literal_0035 literal_9858 literal_5878 f1 f2 f3 f4 f5 f6 f7 nz f8 f9])
qed

lemma defineVoltageCurrent_at_200_230:
  "defineVoltageCurrent pow2_rounded \<lparr>powerInkW = Num 200, voltage = Num 230\<rparr> = double_of 270.66"
proof -
  have f0: "pow2_rounded (Num 200) = Num 40000"
    unfolding pow2_rounded_def js_mul.simps
    by (rule double_of_eval [where e = "15" and m = "5497558138880000"]) (simp_all add: round_even_def)
  have f1: "double_of ((8070450532247929 / 2 ^ 61) * 40000) = Num 140"
    by (rule double_of_eval [where e = "7" and m = "4925812092436480"]) (simp_all add: round_even_def)
  have f2: "double_of ((4439648512661835 / 2 ^ 52) * 200) = Num (6936950801034117 / 2 ^ 45)"
    by (rule double_of_eval [where e = "7" and m = "6936950801034117"]) (simp_all add: round_even_def)
  have f3: "double_of (140 + (6936950801034117 / 2 ^ 45)) = Num (2965690723367649 / 2 ^ 43)"
    by (rule double_of_eval [where e = "8" and m = "5931381446735298"]) (simp_all add: round_even_def)
  have f4: "double_of ((2965690723367649 / 2 ^ 43) + (5294431721936755 / 2 ^ 53)) = Num (2970861066846103 / 2 ^ 43)"
    by (rule double_of_eval [where e = "8" and m = "5941722133692206"]) (simp_all add: round_even_def)
  have f5: "double_of (2 * 200) = Num 400"
    by (rule double_of_eval [where e = "8" and m = "7036874417766400"]) (simp_all add: round_even_def)
  have f6: "double_of (400 + - (2970861066846103 / 2 ^ 43)) = Num (547576142037097 / 2 ^ 43)"
    by (rule double_of_eval [where e = "5" and m = "8761218272593552"]) (simp_all add: round_even_def)
  have f7: "double_of ((547576142037097 / 2 ^ 43) * 1000) = Num (8555877219329641 / 2 ^ 37)"
    by (rule double_of_eval [where e = "15" and m = "8555877219329641"]) (simp_all add: round_even_def)
  have f8: "double_of ((8555877219329641 / 2 ^ 37) / 230) = Num (595191458735975 / 2 ^ 41)"
    by (rule double_of_eval [where e = "8" and m = "4761531669887800"]) (simp_all add: round_even_def)
  have nz: "(230::real) \<noteq> 0"
    by simp
  have f9: "toFixed2 (595191458735975 / 2 ^ 41) = 270.66"
    by (simp add: toFixed2_def)
  show ?thesis
    by (rule dvc_steps [where pow = pow2_rounded, OF f0 literal_0035 literal_9858 literal_5878 f1 f2 f3 f4 f5 f6 f7 nz f8 f9])
qed

lemma defineVoltageCurrent_at_9_100:
  "defineVoltageCurrent pow2_rounded \<lparr>powerInkW = Num 9, voltage = Num 100\<rparr> = double_of 82.56"
proof -
  have f0: "pow2_rounded (Num 9) = Num 81"
    unfolding pow2_rounded_def js_mul.simps
    by (rule double_of_eval [where e = "6" and m = "5699868278390784"]) (simp_all add: round_even_def)
  have f1: "double_of ((8070450532247929 / 2 ^ 61) * 81) = Num (5107081977438143 / 2 ^ 54)"
    by (rule double_of_eval [where e = "- 2" and m = "5107081977438143"]) (simp_all add: round_even_def)
  have f2: "double_of ((4439648512661835 / 2 ^ 52) * 9) = Num (1248651144186141 / 2 ^ 47)"
    by (rule double_of_eval [where e = "3" and m = "4994604576744564"]) (simp_all add: round_even_def)
  have f3: "double_of ((5107081977438143 / 2 ^ 54) + (1248651144186141 / 2 ^ 47)) = Num (2577100444269753 / 2 ^ 48)"
    by (rule double_of_eval [where e = "3" and m = "5154200888539506"]) (simp_all add: round_even_def)
  have f4: "double_of ((2577100444269753 / 2 ^ 48) + (5294431721936755 / 2 ^ 53)) = Num (5485102871160553 / 2 ^ 49)"
    by (rule double_of_eval [where e = "3" and m = "5485102871160553"]) (simp_all add: round_even_def)
  have f5: "double_of (2 * 9) = Num 18"
    by (rule double_of_eval [where e = "4" and m = "5066549580791808"]) (simp_all add: round_even_def)
  have f6: "double_of (18 + - (5485102871160553 / 2 ^ 49)) = Num (4647996290423063 / 2 ^ 49)"
    by (rule double_of_eval [where e = "3" and m = "4647996290423063"]) (simp_all add: round_even_def)
  have f7: "double_of ((4647996290423063 / 2 ^ 49) * 1000) = Num (16513 / 2 ^ 1)"
    by (rule double_of_eval [where e = "13" and m = "4539058877366272"]) (simp_all add: round_even_def)
  have f8: "double_of ((16513 / 2 ^ 1) / 100) = Num (1452498840757207 / 2 ^ 44)"
    by (rule double_of_eval [where e = "6" and m = "5809995363028828"]) (simp_all add: round_even_def)
  have nz: "(100::real) \<noteq> 0"
    by simp
  have f9: "toFixed2 (1452498840757207 / 2 ^ 44) = 82.56"
    by (simp add: toFixed2_def)
  show ?thesis
    by (rule dvc_steps [where pow = pow2_rounded, OF f0 literal_0035 literal_9858 literal_5878 f1 f2 f3 f4 f5 f6 f7 nz f8 f9])
qed

lemma defineVoltageCurrent_at_lower_128:
  "defineVoltageCurrent pow2_rounded \<lparr>powerInkW = Num (2217774204400499 / 2 ^ 51), voltage = Num 128\<rparr> = double_of 3.19"
proof -
  have f0: "pow2_rounded (Num (2217774204400499 / 2 ^ 51)) = Num (136516420992779 / 2 ^ 47)"
    unfolding pow2_rounded_def js_mul.simps
    by (rule double_of_eval [where e = "- 1" and m = "8737050943537856"]) (simp_all add: round_even_def)
  have f1: "double_of ((8070450532247929 / 2 ^ 61) * (136516420992779 / 2 ^ 47)) = Num (7828397645409919 / 2 ^ 61)"
    by (rule double_of_eval [where e = "- 9" and m = "7828397645409919"]) (simp_all add: round_even_def)
  have f2: "double_of ((4439648512661835 / 2 ^ 52) * (2217774204400499 / 2 ^ 51)) = Num (546570452674503 / 2 ^ 49)"
    by (rule double_of_eval [where e = "- 1" and m = "8745127242792048"]) (simp_all add: round_even_def)
  have f3: "double_of ((7828397645409919 / 2 ^ 61) + (546570452674503 / 2 ^ 49)) = Num (4387853460547215 / 2 ^ 52)"
    by (rule double_of_eval [where e = "- 1" and m = "8775706921094430"]) (simp_all add: round_even_def)
  have f4: "double_of ((4387853460547215 / 2 ^ 52) + (5294431721936755 / 2 ^ 53)) = Num (879383665189449 / 2 ^ 49)"
    by (rule double_of_eval [where e = "0" and m = "7035069321515592"]) (simp_all add: round_even_def)
  have f5: "double_of (2 * (2217774204400499 / 2 ^ 51)) = Num (2217774204400499 / 2 ^ 50)"
    by (rule double_of_eval [where e = "0" and m = "8871096817601996"]) (simp_all add: round_even_def)
  have f6: "double_of ((2217774204400499 / 2 ^ 50) + - (879383665189449 / 2 ^ 49)) = Num (459006874021601 / 2 ^ 50)"
    by (rule double_of_eval [where e = "- 2" and m = "7344109984345616"]) (simp_all add: round_even_def)
  have f7: "double_of ((459006874021601 / 2 ^ 50) * 1000) = Num (1792995601646879 / 2 ^ 42)"
    by (rule double_of_eval [where e = "8" and m = "7171982406587516"]) (simp_all add: round_even_def)
  have f8: "double_of ((1792995601646879 / 2 ^ 42) / 128) = Num (1792995601646879 / 2 ^ 49)"
    by (rule double_of_eval [where e = "1" and m = "7171982406587516"]) (simp_all add: round_even_def)
  have nz: "(128::real) \<noteq> 0"
    by simp
  have f9: "toFixed2 (1792995601646879 / 2 ^ 49) = 3.19"
    by (simp add: toFixed2_def)
  show ?thesis
    by (rule dvc_steps [where pow = pow2_rounded, OF f0 literal_0035 literal_9858 literal_5878 f1 f2 f3 f4 f5 f6 f7 nz f8 f9])
qed

lemma defineVoltageCurrent_at_upper_128:
  "defineVoltageCurrent pow2_rounded \<lparr>powerInkW = Num (8871096817601997 / 2 ^ 53), voltage = Num 128\<rparr> = double_of 3.18"
proof -
  have f0: "pow2_rounded (Num (8871096817601997 / 2 ^ 53)) = Num (4368525471768929 / 2 ^ 52)"
    unfolding pow2_rounded_def js_mul.simps
    by (rule double_of_eval [where e = "- 1" and m = "8737050943537858"]) (simp_all add: round_even_def)
  have f1: "double_of ((8070450532247929 / 2 ^ 61) * (4368525471768929 / 2 ^ 52)) = Num (7828397645409921 / 2 ^ 61)"
    by (rule double_of_eval [where e = "- 9" and m = "7828397645409921"]) (simp_all add: round_even_def)
  have f2: "double_of ((4439648512661835 / 2 ^ 52) * (8871096817601997 / 2 ^ 53)) = Num (8745127242792049 / 2 ^ 53)"
    by (rule double_of_eval [where e = "- 1" and m = "8745127242792049"]) (simp_all add: round_even_def)
  have f3: "double_of ((7828397645409921 / 2 ^ 61) + (8745127242792049 / 2 ^ 53)) = Num (274240841284201 / 2 ^ 48)"
    by (rule double_of_eval [where e = "- 1" and m = "8775706921094432"]) (simp_all add: round_even_def)
  have f4: "double_of ((274240841284201 / 2 ^ 48) + (5294431721936755 / 2 ^ 53)) = Num (3517534660757797 / 2 ^ 51)"
    by (rule double_of_eval [where e = "0" and m = "7035069321515594"]) (simp_all add: round_even_def)
  have f5: "double_of (2 * (8871096817601997 / 2 ^ 53)) = Num (8871096817601997 / 2 ^ 52)"
    by (rule double_of_eval [where e = "0" and m = "8871096817601997"]) (simp_all add: round_even_def)
  have f6: "double_of ((8871096817601997 / 2 ^ 52) + - (3517534660757797 / 2 ^ 51)) = Num (1836027496086403 / 2 ^ 52)"
    by (rule double_of_eval [where e = "- 2" and m = "7344109984345612"]) (simp_all add: round_even_def)
  have f7: "double_of ((1836027496086403 / 2 ^ 52) * 1000) = Num (896497800823439 / 2 ^ 41)"
    by (rule double_of_eval [where e = "8" and m = "7171982406587512"]) (simp_all add: round_even_def)
  have f8: "double_of ((896497800823439 / 2 ^ 41) / 128) = Num (896497800823439 / 2 ^ 48)"
    by (rule double_of_eval [where e = "1" and m = "7171982406587512"]) (simp_all add: round_even_def)
  have nz: "(128::real) \<noteq> 0"
    by simp
  have f9: "toFixed2 (896497800823439 / 2 ^ 48) = 3.18"
    by (simp add: toFixed2_def)
  show ?thesis
    by (rule dvc_steps [where pow = pow2_rounded, OF f0 literal_0035 literal_9858 literal_5878 f1 f2 f3 f4 f5 f6 f7 nz f8 f9])
qed

lemma defineVoltageCurrent_at_11_692:
  "defineVoltageCurrent pow2_rounded \<lparr>powerInkW = Num 11, voltage = Num 692\<rparr> = double_of 14.66"
proof -
  have f0: "pow2_rounded (Num 11) = Num 121"
    unfolding pow2_rounded_def js_mul.simps
    by (rule double_of_eval [where e = "6" and m = "8514618045497344"]) (simp_all add: round_even_def)
  have f1: "double_of ((8070450532247929 / 2 ^ 61) * 121) = Num (1907274442191405 / 2 ^ 52)"
    by (rule double_of_eval [where e = "- 2" and m = "7629097768765620"]) (simp_all add: round_even_def)
  have f2: "double_of ((4439648512661835 / 2 ^ 52) * 11) = Num (6104516704910023 / 2 ^ 49)"
    by (rule double_of_eval [where e = "3" and m = "6104516704910023"]) (simp_all add: round_even_def)
  have f3: "double_of ((1907274442191405 / 2 ^ 52) + (6104516704910023 / 2 ^ 49)) = Num (6342926010183949 / 2 ^ 49)"
    by (rule double_of_eval [where e = "3" and m = "6342926010183949"]) (simp_all add: round_even_def)
  have f4: "double_of ((6342926010183949 / 2 ^ 49) + (5294431721936755 / 2 ^ 53)) = Num (1668456998201249 / 2 ^ 47)"
    by (rule double_of_eval [where e = "3" and m = "6673827992804996"]) (simp_all add: round_even_def)
  have f5: "double_of (2 * 11) = Num 22"
    by (rule double_of_eval [where e = "4" and m = "6192449487634432"]) (simp_all add: round_even_def)
  have f6: "double_of (22 + - (1668456998201249 / 2 ^ 47)) = Num (1427767745615967 / 2 ^ 47)"
    by (rule double_of_eval [where e = "3" and m = "5711070982463868"]) (simp_all add: round_even_def)
  have f7: "double_of ((1427767745615967 / 2 ^ 47) * 1000) = Num (5577217756312371 / 2 ^ 39)"
    by (rule double_of_eval [where e = "13" and m = "5577217756312371"]) (simp_all add: round_even_def)
  have f8: "double_of ((5577217756312371 / 2 ^ 39) / 692) = Num (8252992749225243 / 2 ^ 49)"
    by (rule double_of_eval [where e = "3" and m = "8252992749225243"]) (simp_all add: round_even_def)
  have nz: "(692::real) \<noteq> 0"
    by simp
  have f9: "toFixed2 (8252992749225243 / 2 ^ 49) = 14.66"
    by (simp add: toFixed2_def)
  show ?thesis
    by (rule dvc_steps [where pow = pow2_rounded, OF f0 literal_0035 literal_9858 literal_5878 f1 f2 f3 f4 f5 f6 f7 nz f8 f9])
qed

lemma defineVoltageCurrent_at_22_692:
  "defineVoltageCurrent pow2_rounded \<lparr>powerInkW = Num 22, voltage = Num 692\<rparr> = double_of 28.95"
proof -
  have f0: "pow2_rounded (Num 22) = Num 484"
    unfolding pow2_rounded_def js_mul.simps
    by (rule double_of_eval [where e = "8" and m = "8514618045497344"]) (simp_all add: round_even_def)
  have f1: "double_of ((8070450532247929 / 2 ^ 61) * 484) = Num (1907274442191405 / 2 ^ 50)"
    by (rule double_of_eval [where e = "0" and m = "7629097768765620"]) (simp_all add: round_even_def)
  have f2: "double_of ((4439648512661835 / 2 ^ 52) * 22) = Num (6104516704910023 / 2 ^ 48)"
    by (rule double_of_eval [where e = "4" and m = "6104516704910023"]) (simp_all add: round_even_def)
  have f3: "double_of ((1907274442191405 / 2 ^ 50) + (6104516704910023 / 2 ^ 48)) = Num (3290667657728937 / 2 ^ 47)"
    by (rule double_of_eval [where e = "4" and m = "6581335315457874"]) (simp_all add: round_even_def)
  have f4: "double_of ((3290667657728937 / 2 ^ 47) + (5294431721936755 / 2 ^ 53)) = Num (3373393153384199 / 2 ^ 47)"
    by (rule double_of_eval [where e = "4" and m = "6746786306768398"]) (simp_all add: round_even_def)
  have f5: "double_of (2 * 22) = Num 44"
    by (rule double_of_eval [where e = "5" and m = "6192449487634432"]) (simp_all add: round_even_def)
  have f6: "double_of (44 + - (3373393153384199 / 2 ^ 47)) = Num (2819056334250233 / 2 ^ 47)"
    by (rule double_of_eval [where e = "4" and m = "5638112668500466"]) (simp_all add: round_even_def)
  have f7: "double_of ((2819056334250233 / 2 ^ 47) * 1000) = Num (2752984701416243 / 2 ^ 37)"
    by (rule double_of_eval [where e = "14" and m = "5505969402832486"]) (simp_all add: round_even_def)
  have f8: "double_of ((2752984701416243 / 2 ^ 37) / 692) = Num (4073780829841377 / 2 ^ 47)"
    by (rule double_of_eval [where e = "4" and m = "8147561659682754"]) (simp_all add: round_even_def)
  have nz: "(692::real) \<noteq> 0"
    by simp
  have f9: "toFixed2 (4073780829841377 / 2 ^ 47) = 28.95"
    by (simp add: toFixed2_def)
  show ?thesis
    by (rule dvc_steps [where pow = pow2_rounded, OF f0 literal_0035 literal_9858 literal_5878 f1 f2 f3 f4 f5 f6 f7 nz f8 f9])
qed

lemma parsed_m256: "double_of (- 2.56) = Num (- (5764607523034235 / 2 ^ 51))"
  by (rule double_of_eval [where e = "1" and m = "- 5764607523034235"]) (simp_all add: round_even_def)

lemma parsed_27066: "double_of 270.66 = Num (4761501074781635 / 2 ^ 44)"
  by (rule double_of_eval [where e = "8" and m = "4761501074781635"]) (simp_all add: round_even_def)

lemma parsed_28623: "double_of 286.23 = Num (629426426436649 / 2 ^ 41)"
  by (rule double_of_eval [where e = "8" and m = "5035411411493192"]) (simp_all add: round_even_def)

lemma parsed_319: "double_of 3.19 = Num (7183241405655941 / 2 ^ 51)"
  by (rule double_of_eval [where e = "1" and m = "7183241405655941"]) (simp_all add: round_even_def)

lemma parsed_318: "double_of 3.18 = Num (7160723407519089 / 2 ^ 51)"
  by (rule double_of_eval [where e = "1" and m = "7160723407519089"]) (simp_all add: round_even_def)

text \<open>
  C5. Claim: \<open>defineVoltageCurrent\<close> computes the formula rounded to two decimals, gives 0
  for 0 kW at 230 V, and rises with the power for every fixed voltage above 0. The code
  computes the formula in the arithmetic of doubles. For a power from 0 kW to the vertex
  of the parabola, 5071/35 kW (about 144.89 kW), a voltage from 1 V on, and an engine
  whose squares of the powers concerned are at most \<open>2\<^bsup>-30\<^esup>\<close> off: the result is the double
  nearest to a number of hundredths that is at most half a hundredth and \<open>10\<^bsup>-7\<^esup>\<close> away from
  the specification's formula; from a power to a larger one in that range, at the same
  voltage, the number of hundredths falls by at most one; and for 0 kW at 230 V the
  result is -2.56.
\<close>

theorem defineVoltageCurrent_rounded_formula:
  assumes "0 \<le> p" "p \<le> q" "q \<le> 5071 / 35" "1 \<le> v"
    and "near_square (pow (Num p)) p" "near_square (pow (Num q)) q" "near_square (pow (Num 0)) 0"
  shows "(\<exists>n m :: int.
           defineVoltageCurrent pow \<lparr>powerInkW = Num p, voltage = Num v\<rparr> = double_of (of_int n / 100)
         \<and> defineVoltageCurrent pow \<lparr>powerInkW = Num q, voltage = Num v\<rparr> = double_of (of_int m / 100)
         \<and> \<bar>of_int n / 100 - computeCurrentForPower_exact p v\<bar> \<le> 1 / 200 + 1 / 10 ^ 7
         \<and> \<bar>of_int m / 100 - computeCurrentForPower_exact q v\<bar> \<le> 1 / 200 + 1 / 10 ^ 7
         \<and> n \<le> m + 1)
    \<and> defineVoltageCurrent pow \<lparr>powerInkW = Num 0, voltage = Num 230\<rparr> = double_of (- 2.56)"
proof -
  have pq: "p \<le> 5071 / 35" "0 \<le> q" using assms(1,2,3) by linarith+
  from defineVoltageCurrent_hundredths [where pow = pow, OF assms(1) pq(1) assms(4,5)] obtain n :: int
    where n: "defineVoltageCurrent pow \<lparr>powerInkW = Num p, voltage = Num v\<rparr> = double_of (of_int n / 100)"
      "\<bar>of_int n - 100 * computeCurrentForPower_exact p v\<bar> \<le> 1 / 2 + 1 / 10 ^ 5"
    by blast
  from defineVoltageCurrent_hundredths [where pow = pow, OF pq(2) assms(3,4,6)] obtain m :: int
    where m: "defineVoltageCurrent pow \<lparr>powerInkW = Num q, voltage = Num v\<rparr> = double_of (of_int m / 100)"
      "\<bar>of_int m - 100 * computeCurrentForPower_exact q v\<bar> \<le> 1 / 2 + 1 / 10 ^ 5"
    by blast
  have v: "0 < v" using assms(4) by linarith
  have mono: "computeCurrentForPower_exact p v \<le> computeCurrentForPower_exact q v"
    by (rule exact_mono [OF assms(2,3) v])
  have small: "(1::real) / 10 ^ 5 \<le> 1 / 4" by simp
  have "(of_int n :: real) < of_int m + 2" using n(2) m(2) mono small by linarith
  then have "(of_int n :: real) < of_int (m + 2)" by simp
  then have "n < m + 2" by (simp only: of_int_less_iff)
  then have nm: "n \<le> m + 1" by simp
  have e: "(1::real) / 2 + 1 / 10 ^ 5 = 50001 / 100000" "(1::real) / 200 + 1 / 10 ^ 7 = 50001 / 10000000"
    by simp_all
  have nn: "\<bar>of_int n / 100 - computeCurrentForPower_exact p v\<bar> \<le> 1 / 200 + 1 / 10 ^ 7"
    using n(2) unfolding e by linarith
  have mm: "\<bar>of_int m / 100 - computeCurrentForPower_exact q v\<bar> \<le> 1 / 200 + 1 / 10 ^ 7"
    using m(2) unfolding e by linarith
  have "\<exists>n m :: int.
           defineVoltageCurrent pow \<lparr>powerInkW = Num p, voltage = Num v\<rparr> = double_of (of_int n / 100)
         \<and> defineVoltageCurrent pow \<lparr>powerInkW = Num q, voltage = Num v\<rparr> = double_of (of_int m / 100)
         \<and> \<bar>of_int n / 100 - computeCurrentForPower_exact p v\<bar> \<le> 1 / 200 + 1 / 10 ^ 7
         \<and> \<bar>of_int m / 100 - computeCurrentForPower_exact q v\<bar> \<le> 1 / 200 + 1 / 10 ^ 7
         \<and> n \<le> m + 1"
    using n(1) m(1) nn mm nm by blast
  then show ?thesis using zero_power_result [where pow = pow, OF assms(7)] by blast
qed

theorem defineVoltageCurrent_rounded_formula_witness:
  "(\<exists>n m :: int.
      defineVoltageCurrent pow2_rounded \<lparr>powerInkW = Num 11, voltage = Num 692\<rparr> = double_of (of_int n / 100)
    \<and> defineVoltageCurrent pow2_rounded \<lparr>powerInkW = Num 22, voltage = Num 692\<rparr> = double_of (of_int m / 100)
    \<and> \<bar>of_int n / 100 - computeCurrentForPower_exact 11 692\<bar> \<le> 1 / 200 + 1 / 10 ^ 7
    \<and> \<bar>of_int m / 100 - computeCurrentForPower_exact 22 692\<bar> \<le> 1 / 200 + 1 / 10 ^ 7
    \<and> n \<le> m + 1)
   \<and> defineVoltageCurrent pow2_rounded \<lparr>powerInkW = Num 0, voltage = Num 230\<rparr> = double_of (- 2.56)
   \<and> defineVoltageCurrent pow2_rounded \<lparr>powerInkW = Num 11, voltage = Num 692\<rparr> = double_of 14.66
   \<and> defineVoltageCurrent pow2_rounded \<lparr>powerInkW = Num 22, voltage = Num 692\<rparr> = double_of 28.95"
proof -
  have h: "(0::real) \<le> 11" "(11::real) \<le> 22" "(22::real) \<le> 5071 / 35" "(1::real) \<le> 692"
    by simp_all
  have "double_of (11 * 11) = Num 121"
    by (rule double_of_eval [where e = 6 and m = 8514618045497344]) (simp_all add: round_even_def)
  then have s11: "near_square (pow2_rounded (Num 11)) 11" by (simp add: pow2_rounded_def)
  have "double_of (22 * 22) = Num 484"
    by (rule double_of_eval [where e = 8 and m = 8514618045497344]) (simp_all add: round_even_def)
  then have s22: "near_square (pow2_rounded (Num 22)) 22" by (simp add: pow2_rounded_def)
  have s0: "near_square (pow2_rounded (Num 0)) 0" by (simp add: pow2_rounded_def double_of_def)
  show ?thesis
    using defineVoltageCurrent_rounded_formula [where pow = pow2_rounded, OF h s11 s22 s0]
      defineVoltageCurrent_at_11_692 defineVoltageCurrent_at_22_692
    by blast
qed

text \<open>
  With correctly rounded squares: at 0 kW and 230 V the result is -2.56 and not 0, and at
  230 V the result for 200 kW, 270.66, is below the one for 100 kW, 286.23.
\<close>

theorem defineVoltageCurrent_zero_power_and_falling:
  "defineVoltageCurrent pow2_rounded \<lparr>powerInkW = Num 0, voltage = Num 230\<rparr> = double_of (- 2.56)
   \<and> defineVoltageCurrent pow2_rounded \<lparr>powerInkW = Num 0, voltage = Num 230\<rparr> \<noteq> Num 0
   \<and> defineVoltageCurrent pow2_rounded \<lparr>powerInkW = Num 100, voltage = Num 230\<rparr> = double_of 286.23
   \<and> defineVoltageCurrent pow2_rounded \<lparr>powerInkW = Num 200, voltage = Num 230\<rparr> = double_of 270.66
   \<and> js_less (defineVoltageCurrent pow2_rounded \<lparr>powerInkW = Num 200, voltage = Num 230\<rparr>)
              (defineVoltageCurrent pow2_rounded \<lparr>powerInkW = Num 100, voltage = Num 230\<rparr>)"
proof -
  have "double_of (- 2.56) \<noteq> Num 0" unfolding parsed_m256 by simp
  moreover have "js_less (double_of 270.66) (double_of 286.23)"
    unfolding parsed_27066 parsed_28623 by simp
  ultimately show ?thesis
    unfolding defineVoltageCurrent_at_0_230 defineVoltageCurrent_at_100_230
      defineVoltageCurrent_at_200_230
    by simp
qed

text \<open>
  Below the vertex the result does fall by a hundredth as the power rises: at 128 V, two
  neighbouring doubles near 0.98489 kW give 3.19 and then 3.18, the quotients being the
  doubles next to 3.185 on either side.
\<close>

lemma defineVoltageCurrent_adjacent_powers_fall:
  "(2217774204400499 / 2 ^ 51 :: real) < 8871096817601997 / 2 ^ 53
   \<and> defineVoltageCurrent pow2_rounded \<lparr>powerInkW = Num (2217774204400499 / 2 ^ 51), voltage = Num 128\<rparr>
       = double_of 3.19
   \<and> defineVoltageCurrent pow2_rounded \<lparr>powerInkW = Num (8871096817601997 / 2 ^ 53), voltage = Num 128\<rparr>
       = double_of 3.18
   \<and> js_less (double_of 3.18) (double_of 3.19)"
proof -
  have "(2217774204400499 / 2 ^ 51 :: real) < 8871096817601997 / 2 ^ 53" by simp
  moreover have "js_less (double_of 3.18) (double_of 3.19)" unfolding parsed_319 parsed_318 by simp
  ultimately show ?thesis
    using defineVoltageCurrent_at_lower_128 defineVoltageCurrent_at_upper_128 by blast
qed

text \<open>
  At 9 kW and 100 V the formula gives 82.565, which rounded to two decimals is 82.57; the
  quotient the code computes is the double below 82.565, and the result is 82.56.
\<close>

lemma defineVoltageCurrent_tie_rounds_down:
  "computeCurrentForPower_exact 9 100 = 82.565
   \<and> toFixed2 (computeCurrentForPower_exact 9 100) = 82.57
   \<and> defineVoltageCurrent pow2_rounded \<lparr>powerInkW = Num 9, voltage = Num 100\<rparr> = double_of 82.56"
proof -
  have x: "computeCurrentForPower_exact 9 100 = 82.565"
    by (simp add: computeCurrentForPower_exact_def power2_eq_square)
  have t: "toFixed2 (computeCurrentForPower_exact 9 100) = 82.57"
    unfolding x by (simp add: toFixed2_def)
  show ?thesis using x t defineVoltageCurrent_at_9_100 by blast
qed

section \<open>Sink power polling\<close>

lemma sinkTicks_append:
  "sinkTicks sv (xs @ ys) st = sinkTicks (fst (sinkTicks sv xs st)) ys (snd (sinkTicks sv xs st))"
  by (induction xs arbitrary: sv st) simp_all

lemma sinkTick_publishes:
  "lastSinkPReal (snd (sinkTick sv outcome st)) = Some (fst (sinkTick sv outcome st))"
  by (simp add: sinkTick_def Let_def split: sum.splits)

text \<open>Once a run of the callback has completed, the cache holds the callback's variable.\<close>

lemma sinkTicks_publishes:
  "outs \<noteq> [] \<Longrightarrow> lastSinkPReal (snd (sinkTicks sv outs st)) = Some (fst (sinkTicks sv outs st))"
proof (induction outs arbitrary: sv st)
  case Nil
  then show ?case by simp
next
  case (Cons outcome rest)
  show ?case
  proof (cases "rest = []")
    case True
    then show ?thesis using sinkTick_publishes [of sv outcome st] by simp
  next
    case False
    then show ?thesis using Cons.IH [OF False] by simp
  qed
qed

text \<open>
  C7. Claim: a tick whose read fails leaves the cached sink-power result as it was, and
  the cache stays none when no read has succeeded yet. A failed tick assigns the
  callback's variable to the cache. After any earlier tick of the same interval that
  leaves the cache as it was, so a successful value is kept. The variable starts as
  \<open>{successful: false, msg: ''}\<close> with every interval, and when the first tick of an
  interval fails that value replaces what the cache held, none or a result of an earlier
  interval.
\<close>

theorem sink_failure_publishes_session_value:
  "sinkTick sv (Inl err) st = (sv, st\<lparr>lastSinkPReal := Some sv\<rparr>)
   \<and> (outs \<noteq> [] \<longrightarrow>
        lastSinkPReal (snd (sinkTicks sv0 (outs @ [Inl err]) st))
          = lastSinkPReal (snd (sinkTicks sv0 outs st)))
   \<and> fst (startSinkPowerPolling ip intervalMs (st\<lparr>sinkPowerInterval := None\<rparr>))
        = Some \<lparr>successful = False, msg = []\<rparr>
   \<and> lastSinkPReal (snd (sinkTicks \<lparr>successful = False, msg = []\<rparr> [Inl err] st))
        = Some \<lparr>successful = False, msg = []\<rparr>"
proof -
  have "outs \<noteq> [] \<longrightarrow>
        lastSinkPReal (snd (sinkTicks sv0 (outs @ [Inl err]) st))
          = lastSinkPReal (snd (sinkTicks sv0 outs st))"
    using sinkTicks_publishes [of outs sv0 st]
    by (simp add: sinkTicks_append sinkTick_def)
  then show ?thesis by (simp add: sinkTick_def startSinkPowerPolling_def)
qed

theorem sink_failure_publishes_session_value_witness:
  "lastSinkPReal (snd (sinkTicks \<lparr>successful = False, msg = []\<rparr>
       ([Inr \<lparr>successful = True, msg = ''1500.5''\<rparr>] @ [Inl (ConnectError ''ECONNREFUSED'')]) init_state))
   = Some \<lparr>successful = True, msg = ''1500.5''\<rparr>"
proof -
  have "[Inr \<lparr>successful = True, msg = ''1500.5''\<rparr>] \<noteq> ([] :: (error + scpi_result) list)" by simp
  with sink_failure_publishes_session_value
      [of "\<lparr>successful = False, msg = []\<rparr>" "ConnectError ''ECONNREFUSED''" init_state
          "[Inr \<lparr>successful = True, msg = ''1500.5''\<rparr>]" "\<lparr>successful = False, msg = []\<rparr>"]
  have "lastSinkPReal (snd (sinkTicks \<lparr>successful = False, msg = []\<rparr>
       ([Inr \<lparr>successful = True, msg = ''1500.5''\<rparr>] @ [Inl (ConnectError ''ECONNREFUSED'')]) init_state))
     = lastSinkPReal (snd (sinkTicks \<lparr>successful = False, msg = []\<rparr>
       [Inr \<lparr>successful = True, msg = ''1500.5''\<rparr>] init_state))" by blast
  then show ?thesis by (simp add: sinkTick_def Let_def)
qed

text \<open>
  Nothing is cached at the start; polling is started and the sink refuses the connection
  at the first tick: the cache is no longer none.
\<close>

theorem sink_first_failure_replaces_none:
  "getLastSinkPowerValue init_state = None
   \<and> startSinkPowerPolling ''192.168.100.182'' 1000 init_state
       = (Some \<lparr>successful = False, msg = []\<rparr>, init_state\<lparr>sinkPowerInterval := Some 1000\<rparr>)
   \<and> getLastSinkPowerValue (snd (sinkTickOn ''192.168.100.182''
         \<lparr>connect_error = Some ''ECONNREFUSED'', events = []\<rparr>
         \<lparr>successful = False, msg = []\<rparr> (init_state\<lparr>sinkPowerInterval := Some 1000\<rparr>)))
       = Some \<lparr>successful = False, msg = []\<rparr>"
  by (simp add: getLastSinkPowerValue_def startSinkPowerPolling_def sinkTickOn_def sinkTick_def
      getSinkPowerValue_def createClient_def init_state_def)

section \<open>CSV logging\<close>

lemma timestamp_shape:
  "length (timestamp s) \<le> 19 \<and> CHR '':'' \<notin> set (timestamp s) \<and> CHR ''.'' \<notin> set (timestamp s)"
proof -
  have "set (timestamp s) \<subseteq> set (map (\<lambda>c. if c = CHR '':'' \<or> c = CHR ''.'' then CHR ''-'' else c) s)"
    unfolding timestamp_def by (rule set_take_subset)
  then show ?thesis by (auto simp: timestamp_def)
qed

lemma timestamp_example: "timestamp ''2024-01-01T12:00:00.000Z'' = ''2024-01-01T12-00-00''"
  by (simp add: timestamp_def)

text \<open>
  C8. Claim: \<open>startCsvLogging\<close>, when logging is not enabled, creates exactly one file,
  named \<open>measwerte_<timestamp>.csv\<close>, holding the header row, and a second call while
  enabled fails and creates no file. The file the code writes is named
  \<open>messwerte_<timestamp>.csv\<close>, in the storage directory, where the time stamp is the first
  19 characters of the ISO time with every colon and full stop replaced by a hyphen. When
  logging is not enabled and \<open>writeFileSync\<close> does not throw, the call writes that one
  file, with the header row and a newline as its content, and returns its path. When
  logging is not enabled and \<open>writeFileSync\<close> throws, the call throws that error and
  writes no file, and it leaves logging marked as enabled with the path of the file that
  was not written. A call while logging is enabled returns the failure status and leaves
  the state and the files as they are, whatever \<open>writeFileSync\<close> would do.
\<close>

theorem startCsvLogging_writes_messwerte_file:
  "(\<not> csvLoggingEnabled st \<longrightarrow>
      startCsvLogging None storagePath isoString st =
        (Inr \<lparr>success = True,
          filePath = Some (join storagePath (''messwerte_'' @ timestamp isoString @ ''.csv'')),
          message = None\<rparr>,
         st\<lparr>csvLoggingEnabled := True,
            csvFilePath := join storagePath (''messwerte_'' @ timestamp isoString @ ''.csv''),
            files := (files st)(join storagePath (''messwerte_'' @ timestamp isoString @ ''.csv'') \<mapsto>
              [Text (''Timestamp,CDS_Power_W,CDS_Voltage_V,CDS_Current_A,Sink_Power_W,Sink_Success''
                     @ [CHR 0x0A])])\<rparr>))
   \<and> (\<not> csvLoggingEnabled st \<longrightarrow>
      startCsvLogging (Some err) storagePath isoString st =
        (Inl (FsError err),
         st\<lparr>csvLoggingEnabled := True,
            csvFilePath := join storagePath (''messwerte_'' @ timestamp isoString @ ''.csv'')\<rparr>))
   \<and> length (timestamp isoString) \<le> 19
   \<and> CHR '':'' \<notin> set (timestamp isoString) \<and> CHR ''.'' \<notin> set (timestamp isoString)
   \<and> (csvLoggingEnabled st \<longrightarrow>
      startCsvLogging write_error storagePath isoString st =
        (Inr \<lparr>success = False, filePath = None, message = Some ''CSV logging already active''\<rparr>, st))"
  using timestamp_shape [of isoString]
  by (simp add: startCsvLogging_def initializeCsvLogging_def header_def Let_def)

theorem startCsvLogging_writes_messwerte_file_witness:
  "fst (startCsvLogging None ''/home/user/AppData/Local/ACDynamicLoad'' ''2024-03-05T08:30:15.250Z'' init_state)
     = Inr \<lparr>success = True,
        filePath = Some ''/home/user/AppData/Local/ACDynamicLoad/messwerte_2024-03-05T08-30-15.csv'',
        message = None\<rparr>
   \<and> fst (startCsvLogging (Some ''ENOENT'') ''/home/user/AppData/Local/ACDynamicLoad''
        ''2024-03-05T08:30:15.250Z'' init_state)
     = Inl (FsError ''ENOENT'')
   \<and> fst (startCsvLogging None ''/home/user/AppData/Local/ACDynamicLoad'' ''2024-03-05T08:30:16.000Z''
        (init_state\<lparr>csvLoggingEnabled := True\<rparr>))
     = Inr \<lparr>success = False, filePath = None, message = Some ''CSV logging already active''\<rparr>"
proof -
  have off: "\<not> csvLoggingEnabled init_state" by (simp add: init_state_def)
  have on: "csvLoggingEnabled (init_state\<lparr>csvLoggingEnabled := True\<rparr>)" by simp
  have ts: "timestamp ''2024-03-05T08:30:15.250Z'' = ''2024-03-05T08-30-15''"
    by (simp add: timestamp_def)
  have "fst (startCsvLogging None ''/home/user/AppData/Local/ACDynamicLoad'' ''2024-03-05T08:30:15.250Z'' init_state)
     = Inr \<lparr>success = True,
        filePath = Some (join ''/home/user/AppData/Local/ACDynamicLoad''
                     (''messwerte_'' @ timestamp ''2024-03-05T08:30:15.250Z'' @ ''.csv'')),
        message = None\<rparr>"
    using startCsvLogging_writes_messwerte_file
      [of init_state "''/home/user/AppData/Local/ACDynamicLoad''" "''2024-03-05T08:30:15.250Z''"] off
    by simp
  moreover have "fst (startCsvLogging (Some ''ENOENT'') ''/home/user/AppData/Local/ACDynamicLoad''
        ''2024-03-05T08:30:15.250Z'' init_state)
     = Inl (FsError ''ENOENT'')"
    using startCsvLogging_writes_messwerte_file
      [of init_state "''/home/user/AppData/Local/ACDynamicLoad''" "''2024-03-05T08:30:15.250Z''"
          "''ENOENT''"] off
    by simp
  moreover have "fst (startCsvLogging None ''/home/user/AppData/Local/ACDynamicLoad'' ''2024-03-05T08:30:16.000Z''
        (init_state\<lparr>csvLoggingEnabled := True\<rparr>))
     = Inr \<lparr>success = False, filePath = None, message = Some ''CSV logging already active''\<rparr>"
    using startCsvLogging_writes_messwerte_file
      [of "init_state\<lparr>csvLoggingEnabled := True\<rparr>" "''/home/user/AppData/Local/ACDynamicLoad''"
          "''2024-03-05T08:30:16.000Z''" _ None] on
    by simp
  ultimately show ?thesis by (simp add: ts join_def)
qed

text \<open>
  A first call at noon of 1 January 2024 whose write succeeds: the path returned ends in
  \<open>messwerte_2024-01-01T12-00-00.csv\<close>, and no file \<open>measwerte_2024-01-01T12-00-00.csv\<close>
  exists afterwards.
\<close>

theorem startCsvLogging_no_measwerte_file:
  "fst (startCsvLogging None ''/home/user/AppData/Local/ACDynamicLoad'' ''2024-01-01T12:00:00.000Z'' init_state)
     = Inr \<lparr>success = True,
        filePath = Some ''/home/user/AppData/Local/ACDynamicLoad/messwerte_2024-01-01T12-00-00.csv'',
        message = None\<rparr>
   \<and> files (snd (startCsvLogging None ''/home/user/AppData/Local/ACDynamicLoad'' ''2024-01-01T12:00:00.000Z''
        init_state))
        ''/home/user/AppData/Local/ACDynamicLoad/measwerte_2024-01-01T12-00-00.csv'' = None"
  by (simp add: startCsvLogging_def initializeCsvLogging_def header_def Let_def timestamp_def join_def
      init_state_def)

text \<open>
  A first call whose write throws, the storage directory being missing: the call throws,
  no file exists afterwards, and logging is marked as enabled, so that the next call is
  answered with the failure status and writes no file either, although its write would
  succeed.
\<close>

lemma startCsvLogging_write_throws_flag_stays:
  "fst (startCsvLogging (Some ''ENOENT'') ''/home/user/AppData/Local/ACDynamicLoad''
        ''2024-01-01T12:00:00.000Z'' init_state) = Inl (FsError ''ENOENT'')
   \<and> files (snd (startCsvLogging (Some ''ENOENT'') ''/home/user/AppData/Local/ACDynamicLoad''
        ''2024-01-01T12:00:00.000Z'' init_state)) = Map.empty
   \<and> csvLoggingEnabled (snd (startCsvLogging (Some ''ENOENT'') ''/home/user/AppData/Local/ACDynamicLoad''
        ''2024-01-01T12:00:00.000Z'' init_state))
   \<and> startCsvLogging None ''/home/user/AppData/Local/ACDynamicLoad'' ''2024-01-01T12:00:01.000Z''
        (snd (startCsvLogging (Some ''ENOENT'') ''/home/user/AppData/Local/ACDynamicLoad''
           ''2024-01-01T12:00:00.000Z'' init_state))
     = (Inr \<lparr>success = False, filePath = None, message = Some ''CSV logging already active''\<rparr>,
        snd (startCsvLogging (Some ''ENOENT'') ''/home/user/AppData/Local/ACDynamicLoad''
           ''2024-01-01T12:00:00.000Z'' init_state))"
  by (simp add: startCsvLogging_def initializeCsvLogging_def Let_def init_state_def)

section \<open>Invariants of the reachable states\<close>

lemma reachable_continue:
  "reachable ok st \<Longrightarrow> ok e \<Longrightarrow> reachable ok (fst (continue e ip ms (st, pco)))"
  by (cases pco) (simp_all add: r_resume)

text \<open>The state after a call that nothing interleaves with is reachable.\<close>

lemma reachable_startPollingCDS:
  assumes "reachable ok st" "ok e"
  shows "reachable ok (startPollingCDS e ip ms st)"
proof -
  have c: "reachable ok (fst (continue e ip ms r))" if "reachable ok (fst r)" for r
    using reachable_continue [of ok "fst r" e ip ms "snd r"] that assms(2) by simp
  show ?thesis unfolding startPollingCDS_def
    by (intro c r_enter assms)
qed

subsection \<open>The cache holds rounded values\<close>

lemma cache_all_stop: "cache_all P st \<Longrightarrow> cache_all P (stopPollingCDS e st)"
  by (simp add: cache_all_def stopPollingCDS_def Let_def split: option.splits)

lemma cache_all_connect:
  "cache_all P st \<Longrightarrow> cache_all P (fst (startPollingCDS_connect e ip ms st))"
  by (simp add: cache_all_def startPollingCDS_connect_def issue_read_def finally_reschedule_def
      Let_def split: option.splits)

lemma cache_all_enter:
  "cache_all P st \<Longrightarrow> cache_all P (fst (startPollingCDS_enter e ip ms st))"
  by (simp add: startPollingCDS_enter_def cache_all_stop cache_all_connect)

lemma cache_all_timers: "cache_all P (st\<lparr>timers := t\<rparr>) = cache_all P st"
  by (simp add: cache_all_def)

lemma cache_all_voltage:
  "cache_all P st \<Longrightarrow> rounds_to P (measuredVoltageL1 e) \<Longrightarrow> cache_all P (fst (after_voltage e ip ms st))"
  by (cases "measuredVoltageL1 e")
     (simp_all add: cache_all_def after_voltage_def issue_read_def
        finally_reschedule_def Let_def split: option.splits)

lemma cache_all_power:
  "cache_all P st \<Longrightarrow> rounds_to P (read_P_real e) \<Longrightarrow> cache_all P (fst (after_power e ip ms st))"
  by (cases "read_P_real e")
     (simp_all add: cache_all_def after_power_def issue_read_def
        finally_reschedule_def Let_def split: option.splits)

lemma cache_all_current:
  "cache_all P st \<Longrightarrow> rounds_to P (measuredCurrentL1 e) \<Longrightarrow> cache_all P (fst (after_current e ip ms st))"
  by (cases "measuredCurrentL1 e")
     (simp_all add: cache_all_def after_current_def logMeasurementToCsv_def
        finally_reschedule_def Let_def split: option.splits)

lemma cache_all_resume:
  assumes "cache_all P st"
    "rounds_to P (measuredVoltageL1 e)" "rounds_to P (read_P_real e)" "rounds_to P (measuredCurrentL1 e)"
  shows "cache_all P (fst (resume e ip ms pc st))"
  using assms
  by (cases pc)
     (simp_all add: cache_all_connect cache_all_voltage cache_all_power cache_all_current)

lemma reachable_cache_all:
  assumes zero: "P (Num 0)"
    and samples: "\<And>e. ok e \<Longrightarrow>
      rounds_to P (measuredVoltageL1 e) \<and> rounds_to P (read_P_real e) \<and> rounds_to P (measuredCurrentL1 e)"
  shows "reachable ok st \<Longrightarrow> cache_all P st"
proof (induction rule: reachable.induct)
  case r_init
  then show ?case using zero by (simp add: cache_all_def init_state_def)
next
  case (r_stop st e)
  then show ?case by (simp add: cache_all_stop)
next
  case (r_enter st e ip intervalMs)
  then show ?case by (simp add: cache_all_enter)
next
  case (r_timer st e ip intervalMs rest)
  then show ?case by (simp add: cache_all_enter cache_all_timers)
next
  case (r_resume st e ip intervalMs pc)
  then show ?case using samples [of e] by (simp add: cache_all_resume)
next
  case (r_csv_start st write_error storagePath isoString)
  then show ?case
    by (simp add: cache_all_def startCsvLogging_def initializeCsvLogging_def Let_def split: option.splits)
next
  case (r_csv_stop st)
  then show ?case by (simp add: cache_all_def stopCsvLogging_def)
next
  case (r_sink_start st ip intervalMs)
  then show ?case by (simp add: cache_all_def startSinkPowerPolling_def Let_def)
next
  case (r_sink_stop st)
  then show ?case by (simp add: cache_all_def stopSinkPowerPolling_def)
next
  case (r_sink_tick st sv outcome)
  then show ?case by (simp add: cache_all_def sinkTick_def Let_def split: sum.splits)
qed

lemma Math_round_idem: "Math_round (Math_round x) = Math_round x"
  by (cases x) simp_all

lemma reachable_cache_rounded: "reachable any_env st \<Longrightarrow> cache_all is_rounded st"
proof (rule reachable_cache_all)
  show "is_rounded (Num 0)" by (simp add: is_rounded_def)
next
  fix e
  show "rounds_to is_rounded (measuredVoltageL1 e) \<and> rounds_to is_rounded (read_P_real e)
      \<and> rounds_to is_rounded (measuredCurrentL1 e)"
    by (cases "measuredVoltageL1 e"; cases "read_P_real e"; cases "measuredCurrentL1 e")
       (simp_all add: is_rounded_def Math_round_idem)
qed

lemma reachable_cache_integers: "reachable finite_samples st \<Longrightarrow> cache_all isInteger st"
proof (rule reachable_cache_all)
  show "isInteger (Num 0)" by simp
next
  fix e
  assume "finite_samples e"
  then show "rounds_to isInteger (measuredVoltageL1 e) \<and> rounds_to isInteger (read_P_real e)
      \<and> rounds_to isInteger (measuredCurrentL1 e)"
    by (cases "measuredVoltageL1 e"; cases "read_P_real e"; cases "measuredCurrentL1 e")
       (simp_all add: finite_samples_def isInteger_round)
qed

text \<open>
  C9. Claim: every value stored in the cache is rounded with \<open>Math.round\<close> before it is
  written, so the three getters always return integers, from the zero-initialised state
  on. In every state the module can reach from the initial state, each of the three
  values is one that \<open>Math.round\<close> returns: an integer, \<open>NaN\<close> or an infinity. As long as
  every sample the reads resolve with is finite, the three getters return integers in
  every such state.
\<close>

theorem cache_values_rounded:
  "(reachable any_env st \<longrightarrow>
      Math_round (getLastPowerCDS st) = getLastPowerCDS st
      \<and> Math_round (getLastVoltageCDS st) = getLastVoltageCDS st
      \<and> Math_round (getLastCurrentCDS st) = getLastCurrentCDS st)
   \<and> (reachable finite_samples st \<longrightarrow>
      isInteger (getLastPowerCDS st) \<and> isInteger (getLastVoltageCDS st)
      \<and> isInteger (getLastCurrentCDS st))"
  using reachable_cache_rounded [of st] reachable_cache_integers [of st]
  by (simp add: cache_all_def is_rounded_def getLastPowerCDS_def getLastVoltageCDS_def
      getLastCurrentCDS_def)

theorem cache_values_rounded_witness:
  "reachable any_env
     (startPollingCDS (responsive_cds (Num 229.5) (Num 4999.6) (Num 11.7)) ''192.168.100.80'' 400 init_state)
   \<and> reachable finite_samples
     (startPollingCDS (responsive_cds (Num 229.5) (Num 4999.6) (Num 11.7)) ''192.168.100.80'' 400 init_state)
   \<and> Math_round (getLastVoltageCDS
     (startPollingCDS (responsive_cds (Num 229.5) (Num 4999.6) (Num 11.7)) ''192.168.100.80'' 400 init_state))
      = Num 230
   \<and> isInteger (getLastPowerCDS
     (startPollingCDS (responsive_cds (Num 229.5) (Num 4999.6) (Num 11.7)) ''192.168.100.80'' 400 init_state))
   \<and> isInteger (getLastVoltageCDS
     (startPollingCDS (responsive_cds (Num 229.5) (Num 4999.6) (Num 11.7)) ''192.168.100.80'' 400 init_state))
   \<and> isInteger (getLastCurrentCDS
     (startPollingCDS (responsive_cds (Num 229.5) (Num 4999.6) (Num 11.7)) ''192.168.100.80'' 400 init_state))"
proof -
  let ?e = "responsive_cds (Num 229.5) (Num 4999.6) (Num 11.7)"
  let ?st = "startPollingCDS ?e ''192.168.100.80'' 400 init_state"
  have "any_env ?e" by (simp add: any_env_def)
  then have a: "reachable any_env ?st"
    by (intro reachable_startPollingCDS r_init)
  have "finite_samples ?e" by (simp add: finite_samples_def responsive_cds_def)
  then have f: "reachable finite_samples ?st"
    by (intro reachable_startPollingCDS r_init)
  have v: "getLastVoltageCDS ?st = Num 230"
    by (simp add: cds_defs getLastVoltageCDS_def responsive_cds_def init_state_def)
  from cache_values_rounded [of ?st] a f
  have "Math_round (getLastVoltageCDS ?st) = getLastVoltageCDS ?st
      \<and> isInteger (getLastPowerCDS ?st) \<and> isInteger (getLastVoltageCDS ?st)
      \<and> isInteger (getLastCurrentCDS ?st)" by blast
  with a f v show ?thesis by simp
qed

text \<open>
  The voltage register decodes to \<open>NaN\<close> in the first cycle: \<open>getLastVoltageCDS\<close> returns
  \<open>NaN\<close>, which is not an integer.
\<close>

theorem nan_sample_is_stored:
  "getLastVoltageCDS
     (startPollingCDS (responsive_cds NaN (Num 5000) (Num 12)) ''192.168.100.80'' 400 init_state) = NaN
   \<and> \<not> isInteger NaN"
  by (simp add: cds_defs getLastVoltageCDS_def responsive_cds_def init_state_def)

subsection \<open>At most one live connection\<close>

lemma one_connection_stop:
  "one_connection st \<Longrightarrow> disconnects e \<Longrightarrow> one_connection (stopPollingCDS e st)"
  by (simp add: one_connection_def disconnects_def stopPollingCDS_def Let_def split: option.splits)

lemma one_connection_connect:
  "one_connection st \<Longrightarrow> one_connection (fst (startPollingCDS_connect e ip ms st))"
  by (simp add: one_connection_def startPollingCDS_connect_def issue_read_def finally_reschedule_def
      Let_def split: option.splits)

lemma one_connection_enter:
  "one_connection st \<Longrightarrow> disconnects e \<Longrightarrow> one_connection (fst (startPollingCDS_enter e ip ms st))"
  by (simp add: startPollingCDS_enter_def one_connection_stop one_connection_connect)

lemma one_connection_timers: "one_connection (st\<lparr>timers := t\<rparr>) = one_connection st"
  by (simp add: one_connection_def)

lemma one_connection_resume:
  assumes "one_connection st"
  shows "one_connection (fst (resume e ip ms pc st))"
proof (cases pc)
  case AwaitCleanup
  then show ?thesis using one_connection_connect [OF assms] by simp
next
  case AwaitVoltage
  then show ?thesis using assms
    by (cases "measuredVoltageL1 e")
       (simp_all add: one_connection_def after_voltage_def issue_read_def finally_reschedule_def
          Let_def split: option.splits)
next
  case AwaitPower
  then show ?thesis using assms
    by (cases "read_P_real e")
       (simp_all add: one_connection_def after_power_def issue_read_def finally_reschedule_def
          Let_def split: option.splits)
next
  case AwaitCurrent
  then show ?thesis using assms
    by (cases "measuredCurrentL1 e")
       (simp_all add: one_connection_def after_current_def logMeasurementToCsv_def
          finally_reschedule_def Let_def split: option.splits)
qed

lemma reachable_one_connection: "reachable disconnects st \<Longrightarrow> one_connection st"
proof (induction rule: reachable.induct)
  case r_init
  then show ?case by (simp add: one_connection_def init_state_def)
next
  case (r_stop st e)
  then show ?case by (simp add: one_connection_stop)
next
  case (r_enter st e ip intervalMs)
  then show ?case by (simp add: one_connection_enter)
next
  case (r_timer st e ip intervalMs rest)
  then show ?case by (simp add: one_connection_enter one_connection_timers)
next
  case (r_resume st e ip intervalMs pc)
  then show ?case by (simp add: one_connection_resume)
next
  case (r_csv_start st write_error storagePath isoString)
  then show ?case
    by (simp add: one_connection_def startCsvLogging_def initializeCsvLogging_def Let_def split: option.splits)
next
  case (r_csv_stop st)
  then show ?case by (simp add: one_connection_def stopCsvLogging_def)
next
  case (r_sink_start st ip intervalMs)
  then show ?case by (simp add: one_connection_def startSinkPowerPolling_def Let_def)
next
  case (r_sink_stop st)
  then show ?case by (simp add: one_connection_def stopSinkPowerPolling_def)
next
  case (r_sink_tick st sv outcome)
  then show ?case by (simp add: one_connection_def sinkTick_def Let_def split: sum.splits)
qed

lemma one_connection_length: "one_connection st \<Longrightarrow> length (live st) \<le> 1"
  by (simp add: one_connection_def split: option.splits)

text \<open>
  C3. Claim: \<open>startPollingCDS\<close> called while a session is active does nothing: it opens no
  second connection, leaves the session as it is, and the session never holds more than
  one live connection. The code stops the running session first and starts again: the
  call runs \<open>stopPollingCDS\<close>, which clears the active flag, disconnects the adapter and
  drops it, pauses, and then opens a new connection and sets the flag, so that the count
  of opened connections rises by one. With a \<open>disconnect\<close> that does not throw, at most
  one connection is live in every state the module can reach.
\<close>

theorem startPollingCDS_restarts_active_session:
  assumes "reachable disconnects st"
  shows "length (live st) \<le> 1
    \<and> (intervalActive st \<and> disconnects e \<and> \<not> ctor_throws e \<and> \<not> startGlobalStatus_throws e \<longrightarrow>
         startPollingCDS_enter e ip ms st = (stopPollingCDS e st, Some AwaitCleanup)
         \<and> \<not> intervalActive (stopPollingCDS e st)
         \<and> adapter (stopPollingCDS e st) = None
         \<and> live (stopPollingCDS e st) = []
         \<and> snd (resume e ip ms AwaitCleanup (stopPollingCDS e st)) = Some AwaitVoltage
         \<and> opened (fst (resume e ip ms AwaitCleanup (stopPollingCDS e st))) = Suc (opened st)
         \<and> adapter (fst (resume e ip ms AwaitCleanup (stopPollingCDS e st))) = Some (opened st)
         \<and> live (fst (resume e ip ms AwaitCleanup (stopPollingCDS e st))) = [opened st]
         \<and> intervalActive (fst (resume e ip ms AwaitCleanup (stopPollingCDS e st))))"
proof -
  have inv: "one_connection st" using assms by (rule reachable_one_connection)
  have "startPollingCDS_enter e ip ms st = (stopPollingCDS e st, Some AwaitCleanup)"
    if "intervalActive st"
    using that by (simp add: startPollingCDS_enter_def)
  moreover have "\<not> intervalActive (stopPollingCDS e st) \<and> adapter (stopPollingCDS e st) = None"
    by (simp add: stopPollingCDS_def Let_def split: option.splits)
  moreover have "live (stopPollingCDS e st) = []" if "disconnects e"
    using inv that
    by (simp add: one_connection_def disconnects_def stopPollingCDS_def Let_def split: option.splits)
  moreover have "snd (resume e ip ms AwaitCleanup (stopPollingCDS e st)) = Some AwaitVoltage
         \<and> opened (fst (resume e ip ms AwaitCleanup (stopPollingCDS e st))) = Suc (opened st)
         \<and> adapter (fst (resume e ip ms AwaitCleanup (stopPollingCDS e st))) = Some (opened st)
         \<and> live (fst (resume e ip ms AwaitCleanup (stopPollingCDS e st))) = [opened st]
         \<and> intervalActive (fst (resume e ip ms AwaitCleanup (stopPollingCDS e st)))"
    if "disconnects e" "\<not> ctor_throws e" "\<not> startGlobalStatus_throws e"
    using inv that
    by (simp add: one_connection_def disconnects_def stopPollingCDS_def startPollingCDS_connect_def
        issue_read_def Let_def split: option.splits)
  ultimately show ?thesis using one_connection_length [OF inv] by blast
qed

theorem startPollingCDS_restarts_active_session_witness:
  "reachable disconnects
     (startPollingCDS (responsive_cds (Num 400) (Num 5000) (Num 12)) ''192.168.100.80'' 400 init_state)
   \<and> intervalActive
     (startPollingCDS (responsive_cds (Num 400) (Num 5000) (Num 12)) ''192.168.100.80'' 400 init_state)
   \<and> length (live
     (startPollingCDS (responsive_cds (Num 400) (Num 5000) (Num 12)) ''192.168.100.80'' 400 init_state)) \<le> 1
   \<and> opened (fst (resume (responsive_cds (Num 400) (Num 5000) (Num 12)) ''192.168.100.80'' 400 AwaitCleanup
        (stopPollingCDS (responsive_cds (Num 400) (Num 5000) (Num 12))
          (startPollingCDS (responsive_cds (Num 400) (Num 5000) (Num 12)) ''192.168.100.80'' 400 init_state))))
       = 2
   \<and> live (fst (resume (responsive_cds (Num 400) (Num 5000) (Num 12)) ''192.168.100.80'' 400 AwaitCleanup
        (stopPollingCDS (responsive_cds (Num 400) (Num 5000) (Num 12))
          (startPollingCDS (responsive_cds (Num 400) (Num 5000) (Num 12)) ''192.168.100.80'' 400 init_state))))
       = [1]"
proof -
  let ?e = "responsive_cds (Num 400) (Num 5000) (Num 12)"
  let ?st = "startPollingCDS ?e ''192.168.100.80'' 400 init_state"
  have d: "disconnects ?e" by (simp add: disconnects_def responsive_cds_def)
  then have r: "reachable disconnects ?st"
    by (intro reachable_startPollingCDS r_init)
  have a: "intervalActive ?st" by (simp add: cds_defs responsive_cds_def init_state_def)
  have o: "opened ?st = 1" by (simp add: cds_defs responsive_cds_def init_state_def)
  have c: "\<not> ctor_throws ?e \<and> \<not> startGlobalStatus_throws ?e" by (simp add: responsive_cds_def)
  from startPollingCDS_restarts_active_session [OF r, of ?e "''192.168.100.80''" 400] a d c
  have "length (live ?st) \<le> 1
    \<and> opened (fst (resume ?e ''192.168.100.80'' 400 AwaitCleanup (stopPollingCDS ?e ?st))) = Suc (opened ?st)
    \<and> live (fst (resume ?e ''192.168.100.80'' 400 AwaitCleanup (stopPollingCDS ?e ?st))) = [opened ?st]"
    by blast
  with r a o show ?thesis by simp
qed

text \<open>
  Two calls in a row, the second one while the session the first one started is active:
  one connection has been opened after the first call and two after the second.
\<close>

theorem startPollingCDS_twice_opens_two_connections:
  "intervalActive
     (startPollingCDS (responsive_cds (Num 400) (Num 5000) (Num 12)) ''192.168.100.80'' 400 init_state)
   \<and> opened
     (startPollingCDS (responsive_cds (Num 400) (Num 5000) (Num 12)) ''192.168.100.80'' 400 init_state) = 1
   \<and> opened
     (startPollingCDS (responsive_cds (Num 400) (Num 5000) (Num 12)) ''192.168.100.80'' 400
       (startPollingCDS (responsive_cds (Num 400) (Num 5000) (Num 12)) ''192.168.100.80'' 400 init_state)) = 2"
  by (simp add: cds_defs responsive_cds_def init_state_def)

section \<open>Stopping while a read is in flight\<close>

lemma stopPollingCDS_fields:
  "\<not> intervalActive (stopPollingCDS e0 st)" "adapter (stopPollingCDS e0 st) = None"
  "timers (stopPollingCDS e0 st) = timers st" "voltageValue (stopPollingCDS e0 st) = voltageValue st"
  "powerValue (stopPollingCDS e0 st) = powerValue st" "currentValue (stopPollingCDS e0 st) = currentValue st"
  by (simp_all add: stopPollingCDS_def Let_def split: option.splits)

lemma after_voltage_stopped:
  assumes "\<not> intervalActive s" "adapter s = None"
  shows "snd (after_voltage e ip ms s) = None \<and> timers (fst (after_voltage e ip ms s)) = timers s
     \<and> voltageValue (fst (after_voltage e ip ms s))
         = (case measuredVoltageL1 e of Inl err \<Rightarrow> voltageValue s | Inr resultV \<Rightarrow> Math_round resultV)
     \<and> powerValue (fst (after_voltage e ip ms s)) = powerValue s
     \<and> currentValue (fst (after_voltage e ip ms s)) = currentValue s"
  using assms
  by (cases "measuredVoltageL1 e")
     (simp_all add: after_voltage_def issue_read_def finally_reschedule_def Let_def)

lemma after_power_stopped:
  assumes "\<not> intervalActive s" "adapter s = None"
  shows "snd (after_power e ip ms s) = None \<and> timers (fst (after_power e ip ms s)) = timers s
     \<and> voltageValue (fst (after_power e ip ms s)) = voltageValue s
     \<and> powerValue (fst (after_power e ip ms s))
         = (case read_P_real e of Inl err \<Rightarrow> powerValue s
            | Inr resultP \<Rightarrow>
                if js_less (Num 0) (Math_round resultP) then Math_round resultP else powerValue s)
     \<and> currentValue (fst (after_power e ip ms s)) = currentValue s"
  using assms
  by (cases "read_P_real e")
     (simp_all add: after_power_def issue_read_def finally_reschedule_def Let_def)

lemma after_current_stopped:
  assumes "\<not> intervalActive s" "adapter s = None"
  shows "snd (after_current e ip ms s) = None \<and> timers (fst (after_current e ip ms s)) = timers s
     \<and> voltageValue (fst (after_current e ip ms s)) = voltageValue s
     \<and> powerValue (fst (after_current e ip ms s)) = powerValue s
     \<and> currentValue (fst (after_current e ip ms s))
         = (case measuredCurrentL1 e of Inl err \<Rightarrow> currentValue s | Inr resultC \<Rightarrow> Math_round resultC)"
  using assms
  by (cases "measuredCurrentL1 e")
     (simp_all add: after_current_def logMeasurementToCsv_def finally_reschedule_def Let_def)

text \<open>
  C4. Claim: after \<open>stopPollingCDS\<close> has returned nothing is written to the cache, even
  when a read of a poll cycle was in flight at the call: the cycle's reschedule is
  suppressed and its pending result is not stored. When the call comes while a cycle
  waits for a register read, the reschedule is suppressed: the cycle returns at that read
  and adds no timer. The result of the read in flight is stored all the same when the
  read resolves: the rounded sample goes into the field of that read (the power only when
  it is positive), and the two other fields keep their values. When the read rejects, no
  field is written.
\<close>

theorem stop_in_flight_read_is_stored:
  "snd (resume e ip ms AwaitVoltage (stopPollingCDS e0 st)) = None
   \<and> timers (fst (resume e ip ms AwaitVoltage (stopPollingCDS e0 st))) = timers st
   \<and> voltageValue (fst (resume e ip ms AwaitVoltage (stopPollingCDS e0 st)))
       = (case measuredVoltageL1 e of Inl err \<Rightarrow> voltageValue st | Inr resultV \<Rightarrow> Math_round resultV)
   \<and> powerValue (fst (resume e ip ms AwaitVoltage (stopPollingCDS e0 st))) = powerValue st
   \<and> currentValue (fst (resume e ip ms AwaitVoltage (stopPollingCDS e0 st))) = currentValue st
   \<and> snd (resume e ip ms AwaitPower (stopPollingCDS e0 st)) = None
   \<and> timers (fst (resume e ip ms AwaitPower (stopPollingCDS e0 st))) = timers st
   \<and> voltageValue (fst (resume e ip ms AwaitPower (stopPollingCDS e0 st))) = voltageValue st
   \<and> powerValue (fst (resume e ip ms AwaitPower (stopPollingCDS e0 st)))
       = (case read_P_real e of Inl err \<Rightarrow> powerValue st
          | Inr resultP \<Rightarrow>
              if js_less (Num 0) (Math_round resultP) then Math_round resultP else powerValue st)
   \<and> currentValue (fst (resume e ip ms AwaitPower (stopPollingCDS e0 st))) = currentValue st
   \<and> snd (resume e ip ms AwaitCurrent (stopPollingCDS e0 st)) = None
   \<and> timers (fst (resume e ip ms AwaitCurrent (stopPollingCDS e0 st))) = timers st
   \<and> voltageValue (fst (resume e ip ms AwaitCurrent (stopPollingCDS e0 st))) = voltageValue st
   \<and> powerValue (fst (resume e ip ms AwaitCurrent (stopPollingCDS e0 st))) = powerValue st
   \<and> currentValue (fst (resume e ip ms AwaitCurrent (stopPollingCDS e0 st)))
       = (case measuredCurrentL1 e of Inl err \<Rightarrow> currentValue st | Inr resultC \<Rightarrow> Math_round resultC)"
  using after_voltage_stopped [OF stopPollingCDS_fields(1,2), of e ip ms e0 st]
    after_power_stopped [OF stopPollingCDS_fields(1,2), of e ip ms e0 st]
    after_current_stopped [OF stopPollingCDS_fields(1,2), of e ip ms e0 st]
    stopPollingCDS_fields(3-6) [of e0 st]
  by (simp split: sum.splits)

theorem stop_in_flight_read_is_stored_witness:
  "getLastPowerCDS (fst (resume (responsive_cds (Num 230.4) (Num 5000.2) (Num 12)) ''192.168.100.80'' 400
      AwaitPower
      (stopPollingCDS (responsive_cds (Num 230.4) (Num 5000.2) (Num 12))
        (init_state\<lparr>adapter := Some 0, opened := 1, live := [0], streaming := [0],
           intervalActive := True, voltageValue := Num 230\<rparr>)))) = Num 5000
   \<and> timers (fst (resume (responsive_cds (Num 230.4) (Num 5000.2) (Num 12)) ''192.168.100.80'' 400
      AwaitPower
      (stopPollingCDS (responsive_cds (Num 230.4) (Num 5000.2) (Num 12))
        (init_state\<lparr>adapter := Some 0, opened := 1, live := [0], streaming := [0],
           intervalActive := True, voltageValue := Num 230\<rparr>)))) = []"
  using stop_in_flight_read_is_stored [of "responsive_cds (Num 230.4) (Num 5000.2) (Num 12)"
      "''192.168.100.80''" 400 "responsive_cds (Num 230.4) (Num 5000.2) (Num 12)"
      "init_state\<lparr>adapter := Some 0, opened := 1, live := [0], streaming := [0],
           intervalActive := True, voltageValue := Num 230\<rparr>"]
  by (simp add: getLastPowerCDS_def responsive_cds_def init_state_def)

text \<open>
  The first call of \<open>startPollingCDS\<close> waits for the voltage read when \<open>stopPollingCDS\<close>
  is called: the cached voltage is 0 when the call returns, and 230 once the read has
  resolved with 230.4.
\<close>

theorem stop_then_voltage_in_flight_is_written:
  "startPollingCDS_enter (responsive_cds (Num 230.4) (Num 5000.2) (Num 12)) ''192.168.100.80'' 400 init_state
    = (init_state\<lparr>adapter := Some 0, opened := 1, live := [0], streaming := [0], intervalActive := True\<rparr>,
       Some AwaitVoltage)
   \<and> getLastVoltageCDS (stopPollingCDS (responsive_cds (Num 230.4) (Num 5000.2) (Num 12))
        (init_state\<lparr>adapter := Some 0, opened := 1, live := [0], streaming := [0], intervalActive := True\<rparr>))
      = Num 0
   \<and> getLastVoltageCDS (fst (resume (responsive_cds (Num 230.4) (Num 5000.2) (Num 12)) ''192.168.100.80'' 400
        AwaitVoltage
        (stopPollingCDS (responsive_cds (Num 230.4) (Num 5000.2) (Num 12))
          (init_state\<lparr>adapter := Some 0, opened := 1, live := [0], streaming := [0],
             intervalActive := True\<rparr>))))
      = Num 230"
  by (simp add: cds_defs getLastVoltageCDS_def responsive_cds_def init_state_def)

text \<open>
  Two cases in which polling goes on after \<open>stopPollingCDS\<close>: the call comes during the
  pause of a cycle that is restarting the session, which then sets the session up again;
  or it comes between two cycles, and the reschedule timer, which is not cleared, fires.
\<close>

lemma stop_during_pause_is_undone:
  assumes "\<not> ctor_throws e" "\<not> startGlobalStatus_throws e"
  shows "intervalActive (fst (resume e ip ms AwaitCleanup (stopPollingCDS e0 (stopPollingCDS e st))))"
  using assms
  by (simp add: stopPollingCDS_def startPollingCDS_connect_def issue_read_def Let_def
      split: option.splits)

lemma stop_with_pending_timer_is_undone:
  assumes "\<not> ctor_throws e" "\<not> startGlobalStatus_throws e"
  shows "intervalActive (fst (startPollingCDS_enter e ip ms ((stopPollingCDS e0 st)\<lparr>timers := rest\<rparr>)))"
  using assms
  by (simp add: stopPollingCDS_def startPollingCDS_enter_def startPollingCDS_connect_def
      issue_read_def Let_def split: option.splits)

end
